theory Spec2Isabelle
  imports Main "HOL-Library.Word"
begin

section \<open>The Roc playground's bridge to its WebAssembly compiler module\<close>

text \<open>
  The development follows \<^verbatim>\<open>src/wasm/roc-wasm.ts\<close> (the bridge with a length-prefixed
  response buffer), its sibling revision with a module-owned, null-terminated response
  string, the older revision with \<^verbatim>\<open>getTypeInfo\<close>, and \<^verbatim>\<open>parseDiagnostics\<close> of
  \<^verbatim>\<open>src/index.ts\<close>.

  Conventions of the embedding:
  \<^item> the linear memory of the module is a list of bytes; an address is a \<^typ>\<open>nat\<close>
    (the module's exports return unsigned 32-bit addresses and status codes);
  \<^item> a JavaScript exception is a value \<open>Inl e\<close> of a sum type, a returned value is
    \<open>Inr v\<close>;
  \<^item> a computation that may loop forever returns an \<^typ>\<open>'a option\<close>, with \<open>None\<close> for
    "does not return";
  \<^item> a string is the list of its UTF-8 bytes (\<^verbatim>\<open>TextEncoder\<close> and \<^verbatim>\<open>TextDecoder\<close> are
    the identity on well-formed text).
\<close>

subsection \<open>Linear memory and null-terminated strings\<close>

type_synonym byte = "8 word"

text \<open>
  The loop of \<^verbatim>\<open>readNullTerminatedString\<close>:
  \<^verbatim>\<open>while (memory[end] !== 0) { end++; }\<close>.
  Reading a typed array beyond its length gives \<^verbatim>\<open>undefined\<close>, which is not \<open>0\<close>, so the
  loop goes on: only a zero byte inside the buffer stops it.
\<close>

partial_function (option) scan_terminator :: "byte list \<Rightarrow> nat \<Rightarrow> nat option" where
  "scan_terminator memory e =
     (if e < length memory \<and> memory ! e = 0 then Some e
      else scan_terminator memory (e + 1))"

declare scan_terminator.simps [code]

text \<open>
  \<^verbatim>\<open>readNullTerminatedString(ptr)\<close>. The global \<^verbatim>\<open>wasmMemory\<close> is the first argument
  (\<open>None\<close> for \<^verbatim>\<open>null\<close>, otherwise the bytes of its buffer). \<^verbatim>\<open>memory.subarray(ptr, end)\<close>
  is \<open>take (e - ptr) (drop ptr memory)\<close>.
\<close>

definition readNullTerminatedString :: "byte list option \<Rightarrow> nat \<Rightarrow> byte list option" where
  "readNullTerminatedString wasmMemory ptr =
     (case wasmMemory of
        None \<Rightarrow> Some []
      | Some memory \<Rightarrow>
          if ptr = 0 then Some []
          else (case scan_terminator memory ptr of
                  None \<Rightarrow> None
                | Some e \<Rightarrow> Some (take (e - ptr) (drop ptr memory))))"

subsection \<open>Requests and their encoding\<close>

text \<open>
  A request (\<^verbatim>\<open>WasmMessage\<close>) is an object literal: its properties in the order in which the
  literal lists them, each a string or a number. Numbers are the integers the editor
  produces for lines and columns (far below \<open>2^53\<close>, where JavaScript's arithmetic on
  them is exact).
\<close>

datatype field = Str string | Num int

type_synonym WasmMessage = "(string \<times> field) list"

text \<open>
  \<^verbatim>\<open>JSON.stringify\<close> on such an object: the properties in order, strings quoted with the
  escapes of the ECMAScript \<^verbatim>\<open>QuoteJSONString\<close>, integers in decimal.
\<close>

definition digit_char :: "nat \<Rightarrow> char" where
  "digit_char d = ''0123456789abcdef'' ! d"

fun decimal :: "nat \<Rightarrow> string" where
  "decimal n =
     (if n < 10 then [digit_char n] else decimal (n div 10) @ [digit_char (n mod 10)])"

declare decimal.simps [simp del]

definition number_to_string :: "int \<Rightarrow> string" where
  "number_to_string i = (if i < 0 then ''-'' @ decimal (nat (- i)) else decimal (nat i))"

definition quote_char :: "char \<Rightarrow> string" where
  "quote_char c =
     (let n = (of_char c :: nat) in
      if n = 0x22 then [CHR 0x5C, CHR 0x22]
      else if n = 0x5C then [CHR 0x5C, CHR 0x5C]
      else if n = 0x08 then [CHR 0x5C, CHR ''b'']
      else if n = 0x09 then [CHR 0x5C, CHR ''t'']
      else if n = 0x0A then [CHR 0x5C, CHR ''n'']
      else if n = 0x0C then [CHR 0x5C, CHR ''f'']
      else if n = 0x0D then [CHR 0x5C, CHR ''r'']
      else if n < 0x20 then
        [CHR 0x5C, CHR ''u'', CHR ''0'', CHR ''0'', digit_char (n div 16), digit_char (n mod 16)]
      else [c])"

definition quote_string :: "string \<Rightarrow> string" where
  "quote_string s = [CHR 0x22] @ concat (map quote_char s) @ [CHR 0x22]"

fun stringify_field :: "field \<Rightarrow> string" where
  "stringify_field (Str s) = quote_string s"
| "stringify_field (Num i) = number_to_string i"

definition stringify_property :: "string \<times> field \<Rightarrow> string" where
  "stringify_property kv = quote_string (fst kv) @ '':'' @ stringify_field (snd kv)"

fun join_commas :: "string list \<Rightarrow> string" where
  "join_commas [] = []"
| "join_commas [x] = x"
| "join_commas (x # y # ys) = x @ '','' @ join_commas (y # ys)"

definition JSON_stringify :: "WasmMessage \<Rightarrow> string" where
  "JSON_stringify message = ''{'' @ join_commas (map stringify_property message) @ ''}''"

definition TextEncoder_encode :: "string \<Rightarrow> byte list" where
  "TextEncoder_encode s = map of_char s"

text \<open>
  The requests built by \<^verbatim>\<open>createWasmInterface\<close>. \<^verbatim>\<open>getHoverInfo\<close> (the current bridge)
  hands the object
  \<^verbatim>\<open>{ type: "GET_HOVER_INFO", identifier, line, ch: ch + 1 }\<close> to \<^verbatim>\<open>sendMessageQueued\<close>;
  \<^verbatim>\<open>getTypeInfo\<close> (the older bridge) hands it
  \<^verbatim>\<open>{ type: "GET_TYPE_INFO", identifier, line, ch }\<close>.
\<close>

definition getHoverInfo_request :: "string \<Rightarrow> int \<Rightarrow> int \<Rightarrow> WasmMessage" where
  "getHoverInfo_request identifier line ch =
     [(''type'', Str ''GET_HOVER_INFO''), (''identifier'', Str identifier),
      (''line'', Num line), (''ch'', Num (ch + 1))]"

definition getTypeInfo_request :: "string \<Rightarrow> int \<Rightarrow> int \<Rightarrow> WasmMessage" where
  "getTypeInfo_request identifier line ch =
     [(''type'', Str ''GET_TYPE_INFO''), (''identifier'', Str identifier),
      (''line'', Num line), (''ch'', Num ch)]"

subsection \<open>The foreign module\<close>

text \<open>
  What the bridge does to the module, and what it does to its callers' promises, is
  recorded in one trace, in the order in which it happens: the calls of the module's
  exports, the copy of the request into its memory, and for the queue the moment an entry
  is taken off the queue and the moment its promise is settled.
\<close>

datatype action =
    AllocateMessageBuffer nat
  | AllocateResponseBuffer nat
  | ProcessMessage nat nat nat nat
  | FreeMessageBuffer
  | FreeResponseBuffer
  | ProcessAndRespond nat nat
  | FreeWasmString nat
  | GetDebugLogBuffer
  | ClearDebugLog
  | CopyToMemory nat "byte list"
  | Dequeued nat
  | Settled nat

text \<open>
  A call of an export either returns a number (ignored for the exports that return
  nothing) or traps, which JavaScript sees as a \<^verbatim>\<open>WebAssembly.RuntimeError\<close>.

  The module itself is not part of the repository. It is any deterministic machine: what
  an export does may depend on everything that happened before (\<open>respond\<close>), and so may
  the contents of its memory (\<open>memory_after\<close>). \<^verbatim>\<open>getDebugLogBuffer\<close> and \<^verbatim>\<open>clearDebugLog\<close>
  are optional exports.
\<close>

datatype outcome = Trap | Returns nat

record wasm_module =
  has_getDebugLogBuffer :: bool
  has_clearDebugLog :: bool
  respond :: "action list \<Rightarrow> action \<Rightarrow> outcome"
  memory_after :: "action list \<Rightarrow> byte list"

text \<open>
  The exceptions of the bridge: \<^verbatim>\<open>new Error(text)\<close> by its text, and the built-in
  classes that the runtime throws.
\<close>

datatype js_error = Error string | RuntimeError | RangeError | SyntaxError | TypeError

subsection \<open>The globals of the bridge\<close>

text \<open>
  \<^verbatim>\<open>wasmModule\<close> and \<^verbatim>\<open>wasmMemory\<close> are references, of which the bridge only tests whether
  they are \<^verbatim>\<open>null\<close>: here \<open>True\<close> stands for a reference that is set. An entry of the
  queue holds the request and the \<^verbatim>\<open>resolve\<close>/\<^verbatim>\<open>reject\<close> pair of one promise, named by the
  number of that promise.
\<close>

record QueuedMessage =
  message :: WasmMessage
  promise :: nat

record bridge =
  wasmModule :: bool
  wasmMemory :: bool
  messageQueue :: "QueuedMessage list"
  messageInProgress :: bool
  wasmIsDead :: bool

subsection \<open>\<^verbatim>\<open>sendMessageToWasm\<close>, length-prefixed response buffer\<close>

definition responseBufferSize :: nat where
  "responseBufferSize = 256 * 1024"

definition errorMessages :: "string list" where
  "errorMessages =
     [''success'', ''invalid_json'', ''missing_message_type'', ''unknown_message_type'',
      ''invalid_state_for_message'', ''response_buffer_too_small'', ''internal_error'']"

text \<open>\<^verbatim>\<open>errorMessages[resultCode] || 'Unknown error'\<close>\<close>

definition error_message_of :: "nat \<Rightarrow> string" where
  "error_message_of resultCode =
     (if resultCode < length errorMessages then errorMessages ! resultCode
      else ''Unknown error'')"

definition crashed_error :: js_error where
  "crashed_error = Error
     ''WASM module has crashed and is in an unrecoverable state. Please reload the page.''"

definition processMessage_failed :: "nat \<Rightarrow> js_error" where
  "processMessage_failed resultCode = Error
     (''WASM processMessage failed with code '' @ decimal resultCode @ '': '' @
      error_message_of resultCode)"

definition invalid_response_length :: "nat \<Rightarrow> js_error" where
  "invalid_response_length responseLen = Error
     (''WASM returned invalid response length: '' @ decimal responseLen)"

text \<open>
  \<^verbatim>\<open>new DataView(buffer).getUint32(ptr, true)\<close>: four bytes, little-endian; a
  \<^verbatim>\<open>RangeError\<close> (here \<open>None\<close>) when they are not all inside the buffer.
\<close>

definition getUint32 :: "byte list \<Rightarrow> nat \<Rightarrow> nat option" where
  "getUint32 buffer ptr =
     (if ptr + 4 \<le> length buffer then
        Some (unat (buffer ! ptr) + 2 ^ 8 * unat (buffer ! (ptr + 1)) +
              2 ^ 16 * unat (buffer ! (ptr + 2)) + 2 ^ 24 * unat (buffer ! (ptr + 3)))
      else None)"

text \<open>
  Reading and decoding the response, lines 274 to 284 of \<^verbatim>\<open>roc-wasm.ts\<close>. \<open>parse\<close> stands
  for \<^verbatim>\<open>JSON.parse(new TextDecoder().decode(bytes))\<close>, a function of the runtime: \<open>None\<close>
  when it throws a \<^verbatim>\<open>SyntaxError\<close>. \<^verbatim>\<open>new Uint8Array(buffer, offset, length)\<close> throws a
  \<^verbatim>\<open>RangeError\<close> when the view does not fit into the buffer.
\<close>

definition decode_response ::
  "(byte list \<Rightarrow> 'r option) \<Rightarrow> byte list \<Rightarrow> nat \<Rightarrow> js_error + 'r" where
  "decode_response parse buffer responsePtr =
     (case getUint32 buffer responsePtr of
        None \<Rightarrow> Inl RangeError
      | Some responseLen \<Rightarrow>
          if responseLen = 0 \<or> responseLen > responseBufferSize - 4
          then Inl (invalid_response_length responseLen)
          else if responsePtr + 4 + responseLen > length buffer then Inl RangeError
          else (case parse (take responseLen (drop (responsePtr + 4) buffer)) of
                  None \<Rightarrow> Inl SyntaxError
                | Some responseObject \<Rightarrow> Inr responseObject))"

text \<open>
  \<^verbatim>\<open>wasmModule?.getDebugLogBuffer ? readNullTerminatedString(wasmModule.getDebugLogBuffer()) : ...\<close>
  inside a \<^verbatim>\<open>try\<close> whose \<^verbatim>\<open>catch\<close> only logs: a trap of the export is swallowed, the
  text is only printed. What is left is the trace, and \<open>None\<close> when the scan for the
  terminator does not return.
\<close>

definition fetch_debug_log :: "wasm_module \<Rightarrow> action list \<Rightarrow> action list option" where
  "fetch_debug_log M h =
     (if has_getDebugLogBuffer M then
        (case respond M h GetDebugLogBuffer of
           Trap \<Rightarrow> Some (h @ [GetDebugLogBuffer])
         | Returns ptr \<Rightarrow>
             (case readNullTerminatedString
                     (Some (memory_after M (h @ [GetDebugLogBuffer]))) ptr of
                None \<Rightarrow> None
              | Some wasmDebugLog \<Rightarrow> Some (h @ [GetDebugLogBuffer])))
      else Some h)"

text \<open>
  The log is read and, in the \<^verbatim>\<open>finally\<close> of that \<^verbatim>\<open>try\<close>, cleared after a decoded
  response (lines 287 to 301). A trap of \<^verbatim>\<open>clearDebugLog\<close> is not caught there.
\<close>

definition drain_debug_log ::
  "wasm_module \<Rightarrow> action list \<Rightarrow> (js_error option \<times> action list) option" where
  "drain_debug_log M h =
     (case fetch_debug_log M h of
        None \<Rightarrow> None
      | Some h1 \<Rightarrow>
          if has_clearDebugLog M then
            (case respond M h1 ClearDebugLog of
               Trap \<Rightarrow> Some (Some RuntimeError, h1 @ [ClearDebugLog])
             | Returns u \<Rightarrow> Some (None, h1 @ [ClearDebugLog]))
          else Some (None, h1))"

text \<open>
  The second half of the \<^verbatim>\<open>try\<close> block (lines 258 to 303): the call of
  \<^verbatim>\<open>processMessage\<close>, the test of its status code, the decoding of the response and the
  draining of the log. \<open>h3\<close> is the trace so far, \<open>n\<close> the length of the request.
  The result is what the block returns or throws, the values of the locals
  \<^verbatim>\<open>messagePtr\<close> and \<^verbatim>\<open>responsePtr\<close> (\<open>None\<close> for \<^verbatim>\<open>null\<close>) when it is left, and the
  trace.
\<close>

definition invoke_and_decode ::
  "(byte list \<Rightarrow> 'r option) \<Rightarrow> wasm_module \<Rightarrow> action list \<Rightarrow> nat \<Rightarrow> nat \<Rightarrow> nat \<Rightarrow>
   ((js_error + 'r) \<times> (nat option \<times> nat option) \<times> action list) option" where
  "invoke_and_decode parse M h3 messagePtr n responsePtr =
     (let call = ProcessMessage messagePtr n responsePtr responseBufferSize;
          h4 = h3 @ [call];
          ptrs = (Some messagePtr, Some responsePtr)
      in case respond M h3 call of
        Trap \<Rightarrow> Some (Inl RuntimeError, ptrs, h4)
      | Returns resultCode \<Rightarrow>
          if resultCode \<noteq> 0
          then Some (Inl (processMessage_failed resultCode), ptrs, h4)
          else (case decode_response parse (memory_after M h4) responsePtr of
                  Inl e \<Rightarrow> Some (Inl e, ptrs, h4)
                | Inr responseObject \<Rightarrow>
                    (case drain_debug_log M h4 of
                       None \<Rightarrow> None
                     | Some (Some e, h5) \<Rightarrow> Some (Inl e, ptrs, h5)
                     | Some (None, h5) \<Rightarrow> Some (Inr responseObject, ptrs, h5))))"

text \<open>
  The \<^verbatim>\<open>try\<close> block of \<^verbatim>\<open>sendMessageToWasm\<close> (lines 247 to 303): the request is encoded,
  the two buffers are reserved, the request is copied into the first
  (\<^verbatim>\<open>Uint8Array.set\<close> throws a \<^verbatim>\<open>RangeError\<close> when it does not fit into the memory), and
  the module is called.
\<close>

definition try_block ::
  "(byte list \<Rightarrow> 'r option) \<Rightarrow> wasm_module \<Rightarrow> action list \<Rightarrow> WasmMessage \<Rightarrow>
   ((js_error + 'r) \<times> (nat option \<times> nat option) \<times> action list) option" where
  "try_block parse M h msg =
     (let messageBytes = TextEncoder_encode (JSON_stringify msg);
          n = length messageBytes;
          h1 = h @ [AllocateMessageBuffer n]
      in case respond M h (AllocateMessageBuffer n) of
        Trap \<Rightarrow> Some (Inl RuntimeError, (None, None), h1)
      | Returns messagePtr \<Rightarrow>
          if messagePtr = 0
          then Some (Inl (Error ''Failed to allocate message memory in WASM''),
                     (Some messagePtr, None), h1)
          else if messagePtr + n > length (memory_after M h1)
          then Some (Inl RangeError, (Some messagePtr, None), h1)
          else
            let h2 = h1 @ [CopyToMemory messagePtr messageBytes];
                h3 = h2 @ [AllocateResponseBuffer responseBufferSize]
            in case respond M h2 (AllocateResponseBuffer responseBufferSize) of
              Trap \<Rightarrow> Some (Inl RuntimeError, (Some messagePtr, None), h3)
            | Returns responsePtr \<Rightarrow>
                if responsePtr = 0
                then Some (Inl (Error ''Failed to allocate response memory in WASM''),
                           (Some messagePtr, Some responsePtr), h3)
                else invoke_and_decode parse M h3 messagePtr n responsePtr)"

text \<open>
  The \<^verbatim>\<open>catch\<close> block (lines 304 to 324): a \<^verbatim>\<open>WebAssembly.RuntimeError\<close> sets
  \<^verbatim>\<open>wasmIsDead\<close> and prints the module's log; every error is thrown again.
\<close>

definition catch_block ::
  "wasm_module \<Rightarrow> bridge \<Rightarrow> action list \<Rightarrow> js_error \<Rightarrow> (bridge \<times> action list) option" where
  "catch_block M g h e =
     (if e = RuntimeError then
        (case fetch_debug_log M h of
           None \<Rightarrow> None
         | Some h1 \<Rightarrow> Some (g\<lparr>wasmIsDead := True\<rparr>, h1))
      else Some (g, h))"

text \<open>
  The \<^verbatim>\<open>finally\<close> block (lines 325 to 332):
  \<^verbatim>\<open>if (messagePtr !== null) wasmModule.freeMessageBuffer();\<close>
  \<^verbatim>\<open>if (responsePtr !== null) wasmModule.freeResponseBuffer();\<close>
  An export that traps here ends the block with that exception.
\<close>

definition finally_block ::
  "wasm_module \<Rightarrow> nat option \<times> nat option \<Rightarrow> action list \<Rightarrow> js_error option \<times> action list" where
  "finally_block M ptrs h =
     (let messagePtr = fst ptrs; responsePtr = snd ptrs;
          h1 = (if messagePtr \<noteq> None then h @ [FreeMessageBuffer] else h)
      in if messagePtr \<noteq> None \<and> respond M h FreeMessageBuffer = Trap
         then (Some RuntimeError, h1)
         else if responsePtr \<noteq> None
         then (if respond M h1 FreeResponseBuffer = Trap
               then (Some RuntimeError, h1 @ [FreeResponseBuffer])
               else (None, h1 @ [FreeResponseBuffer]))
         else (None, h1))"

text \<open>
  \<^verbatim>\<open>sendMessageToWasm(message)\<close>: the two guards before the \<^verbatim>\<open>try\<close>, then
  \<^verbatim>\<open>try\<close>/\<^verbatim>\<open>catch\<close>/\<^verbatim>\<open>finally\<close>. An exception of the \<^verbatim>\<open>finally\<close> block replaces the outcome
  of the \<^verbatim>\<open>try\<close> and \<^verbatim>\<open>catch\<close> blocks. The function has no \<^verbatim>\<open>await\<close>: it runs to its end
  when it is called, and the promise it returns is settled with the outcome given here.
\<close>

definition sendMessageToWasm ::
  "(byte list \<Rightarrow> 'r option) \<Rightarrow> wasm_module \<Rightarrow> bridge \<Rightarrow> action list \<Rightarrow> WasmMessage \<Rightarrow>
   ((js_error + 'r) \<times> bridge \<times> action list) option" where
  "sendMessageToWasm parse M g h msg =
     (if wasmIsDead g then Some (Inl crashed_error, g, h)
      else if \<not> wasmModule g \<or> \<not> wasmMemory g
      then Some (Inl (Error ''WASM module or memory not available''), g, h)
      else
        (case try_block parse M h msg of
           None \<Rightarrow> None
         | Some (r, ptrs, h1) \<Rightarrow>
             (case (case r of Inl e \<Rightarrow> catch_block M g h1 e | Inr v \<Rightarrow> Some (g, h1)) of
                None \<Rightarrow> None
              | Some (g2, h2) \<Rightarrow>
                  (case finally_block M ptrs h2 of
                     (Some e, h3) \<Rightarrow> Some (Inl e, g2, h3)
                   | (None, h3) \<Rightarrow> Some (r, g2, h3)))))"

subsection \<open>\<^verbatim>\<open>sendMessageToWasm\<close>, module-owned response string\<close>

text \<open>
  The sibling revision of the bridge calls \<^verbatim>\<open>processAndRespond\<close>, which returns the address
  of a null-terminated response (zero on failure), and finds its length with the bounded
  loop
  \<^verbatim>\<open>for (let i = responsePtr; i < byteLength; i++) if (responseMemory[i] === 0) { responseLength = i - responsePtr; break; }\<close>
  starting from \<^verbatim>\<open>responseLength = 0\<close>.
\<close>

function find_response_length :: "byte list \<Rightarrow> nat \<Rightarrow> nat \<Rightarrow> nat" where
  "find_response_length buffer responsePtr i =
     (if i < length buffer
      then (if buffer ! i = 0 then i - responsePtr
            else find_response_length buffer responsePtr (i + 1))
      else 0)"
  by pat_completeness auto
termination
  by (relation "measure (\<lambda>(buffer, responsePtr, i). length buffer - i)") auto

declare find_response_length.simps [simp del]

text \<open>
  The \<^verbatim>\<open>try\<close> block of this revision. It frees the request buffer itself right after the
  call, and the response string after parsing, setting the local to \<^verbatim>\<open>null\<close> each time.
\<close>

definition try_block_ptr ::
  "(byte list \<Rightarrow> 'r option) \<Rightarrow> wasm_module \<Rightarrow> action list \<Rightarrow> WasmMessage \<Rightarrow>
   ((js_error + 'r) \<times> (nat option \<times> nat option) \<times> action list) option" where
  "try_block_ptr parse M h msg =
     (let messageBytes = TextEncoder_encode (JSON_stringify msg);
          n = length messageBytes;
          h1 = h @ [AllocateMessageBuffer n]
      in case respond M h (AllocateMessageBuffer n) of
        Trap \<Rightarrow> Some (Inl RuntimeError, (None, None), h1)
      | Returns messagePtr \<Rightarrow>
          if messagePtr = 0
          then Some (Inl (Error ''Failed to allocate message memory in WASM''),
                     (Some messagePtr, None), h1)
          else if messagePtr + n > length (memory_after M h1)
          then Some (Inl RangeError, (Some messagePtr, None), h1)
          else
            let h2 = h1 @ [CopyToMemory messagePtr messageBytes];
                call = ProcessAndRespond messagePtr n;
                h3 = h2 @ [call]
            in case respond M h2 call of
              Trap \<Rightarrow> Some (Inl RuntimeError, (Some messagePtr, None), h3)
            | Returns responsePtr \<Rightarrow>
                let h4 = h3 @ [FreeMessageBuffer]
                in if respond M h3 FreeMessageBuffer = Trap
                then Some (Inl RuntimeError, (Some messagePtr, Some responsePtr), h4)
                else if responsePtr = 0
                then Some (Inl (Error
                       ''WASM processAndRespond returned null, indicating an internal error''),
                     (None, Some responsePtr), h4)
                else
                  let buffer = memory_after M h4;
                      responseLength = find_response_length buffer responsePtr responsePtr
                  in if responseLength = 0
                  then Some (Inl (Error
                         ''WASM returned response string without a null terminator''),
                       (None, Some responsePtr), h4)
                  else (case parse (take responseLength (drop responsePtr buffer)) of
                          None \<Rightarrow> Some (Inl SyntaxError, (None, Some responsePtr), h4)
                        | Some responseObject \<Rightarrow>
                            let h5 = h4 @ [FreeWasmString responsePtr]
                            in if respond M h4 (FreeWasmString responsePtr) = Trap
                            then Some (Inl RuntimeError, (None, Some responsePtr), h5)
                            else (case drain_debug_log M h5 of
                                    None \<Rightarrow> None
                                  | Some (Some e, h6) \<Rightarrow> Some (Inl e, (None, None), h6)
                                  | Some (None, h6) \<Rightarrow>
                                      Some (Inr responseObject, (None, None), h6))))"

text \<open>
  Its \<^verbatim>\<open>finally\<close> block wraps each release in a \<^verbatim>\<open>try\<close> whose \<^verbatim>\<open>catch\<close> only warns, so a
  trap of a release is swallowed:
  \<^verbatim>\<open>if (messagePtr !== null) { try { wasmModule.freeMessageBuffer(); } catch (e) {...} }\<close>
  \<^verbatim>\<open>if (responsePtr !== null) { try { wasmModule.freeWasmString(responsePtr); } catch (e) {...} }\<close>
\<close>

definition finally_block_ptr :: "nat option \<times> nat option \<Rightarrow> action list \<Rightarrow> action list" where
  "finally_block_ptr ptrs h =
     (let h1 = (if fst ptrs \<noteq> None then h @ [FreeMessageBuffer] else h)
      in case snd ptrs of
           None \<Rightarrow> h1
         | Some responsePtr \<Rightarrow> h1 @ [FreeWasmString responsePtr])"

definition sendMessageToWasm_ptr ::
  "(byte list \<Rightarrow> 'r option) \<Rightarrow> wasm_module \<Rightarrow> bridge \<Rightarrow> action list \<Rightarrow> WasmMessage \<Rightarrow>
   ((js_error + 'r) \<times> bridge \<times> action list) option" where
  "sendMessageToWasm_ptr parse M g h msg =
     (if wasmIsDead g then Some (Inl crashed_error, g, h)
      else if \<not> wasmModule g \<or> \<not> wasmMemory g
      then Some (Inl (Error ''WASM module or memory not available''), g, h)
      else
        (case try_block_ptr parse M h msg of
           None \<Rightarrow> None
         | Some (r, ptrs, h1) \<Rightarrow>
             (case (case r of Inl e \<Rightarrow> catch_block M g h1 e | Inr v \<Rightarrow> Some (g, h1)) of
                None \<Rightarrow> None
              | Some (g2, h2) \<Rightarrow> Some (r, g2, finally_block_ptr ptrs h2))))"

subsection \<open>The queue and its drain loop\<close>

text \<open>
  JavaScript runs one job at a time. The jobs that touch the bridge are: a caller
  submits a request (\<^verbatim>\<open>sendMessageQueued\<close>, which runs \<^verbatim>\<open>processMessageQueue\<close> up to its first
  \<^verbatim>\<open>await\<close>); a drain loop that was suspended at its \<^verbatim>\<open>await\<close> is resumed; the application
  calls \<^verbatim>\<open>resetWasm\<close>. Besides the globals, the state of the system holds the drain loops
  suspended at \<^verbatim>\<open>await sendMessageToWasm(message)\<close>, each with the promise of the entry it
  took off the queue and the outcome it is waiting for; the number of promises created
  so far; the trace; and the promises settled so far with the value or error each one
  got, in the order in which they were settled.
\<close>

record 'r system =
  globals :: bridge
  awaiting :: "(nat \<times> (js_error + 'r)) list"
  promises :: nat
  history :: "action list"
  delivered :: "(nat \<times> (js_error + 'r)) list"

text \<open>
  The \<^verbatim>\<open>while\<close> loop of \<^verbatim>\<open>processMessageQueue\<close> from its test to the next \<^verbatim>\<open>await\<close>, or to
  its end:
  \<^verbatim>\<open>while (messageQueue.length > 0) { const queuedMessage = messageQueue.shift(); ... await sendMessageToWasm(message) ... } messageInProgress = false;\<close>
  An entry of the queue is an object, so \<^verbatim>\<open>if (!queuedMessage) break;\<close> never fires.
\<close>

definition drain_loop ::
  "(byte list \<Rightarrow> 'r option) \<Rightarrow> wasm_module \<Rightarrow> 'r system \<Rightarrow> 'r system option" where
  "drain_loop parse M s =
     (case messageQueue (globals s) of
        [] \<Rightarrow> Some (s\<lparr>globals := (globals s)\<lparr>messageInProgress := False\<rparr>\<rparr>)
      | queuedMessage # rest \<Rightarrow>
          (case sendMessageToWasm parse M ((globals s)\<lparr>messageQueue := rest\<rparr>)
                  (history s @ [Dequeued (promise queuedMessage)]) (message queuedMessage) of
             None \<Rightarrow> None
           | Some (r, g, h) \<Rightarrow>
               Some (s\<lparr>globals := g, history := h,
                       awaiting := awaiting s @ [(promise queuedMessage, r)]\<rparr>)))"

definition processMessageQueue ::
  "(byte list \<Rightarrow> 'r option) \<Rightarrow> wasm_module \<Rightarrow> 'r system \<Rightarrow> 'r system option" where
  "processMessageQueue parse M s =
     (if messageInProgress (globals s) \<or> messageQueue (globals s) = [] then Some s
      else drain_loop parse M (s\<lparr>globals := (globals s)\<lparr>messageInProgress := True\<rparr>\<rparr>))"

definition sendMessageQueued ::
  "(byte list \<Rightarrow> 'r option) \<Rightarrow> wasm_module \<Rightarrow> WasmMessage \<Rightarrow> 'r system \<Rightarrow> 'r system option" where
  "sendMessageQueued parse M msg s =
     processMessageQueue parse M
       (s\<lparr>promises := Suc (promises s),
          globals := (globals s)\<lparr>messageQueue :=
            messageQueue (globals s) @ [\<lparr>message = msg, promise = promises s\<rparr>]\<rparr>\<rparr>)"

text \<open>
  The continuation of the \<open>k\<close>-th suspended drain loop: \<^verbatim>\<open>resolve(result)\<close> or
  \<^verbatim>\<open>reject(error)\<close>, then the loop goes on.
\<close>

definition resume ::
  "(byte list \<Rightarrow> 'r option) \<Rightarrow> wasm_module \<Rightarrow> nat \<Rightarrow> 'r system \<Rightarrow> 'r system option" where
  "resume parse M k s =
     (if k < length (awaiting s) then
        drain_loop parse M
          (s\<lparr>awaiting := take k (awaiting s) @ drop (Suc k) (awaiting s),
             history := history s @ [Settled (fst (awaiting s ! k))],
             delivered := delivered s @ [awaiting s ! k]\<rparr>)
      else Some s)"

definition resetWasm :: "bridge \<Rightarrow> bridge" where
  "resetWasm g =
     g\<lparr>wasmModule := False, wasmMemory := False, messageQueue := [],
       messageInProgress := False, wasmIsDead := False\<rparr>"

datatype event = Submit WasmMessage | Resume nat | Reset

fun step ::
  "(byte list \<Rightarrow> 'r option) \<Rightarrow> wasm_module \<Rightarrow> event \<Rightarrow> 'r system \<Rightarrow> 'r system option" where
  "step parse M (Submit msg) s = sendMessageQueued parse M msg s"
| "step parse M (Resume k) s = resume parse M k s"
| "step parse M Reset s = Some (s\<lparr>globals := resetWasm (globals s)\<rparr>)"

fun run ::
  "(byte list \<Rightarrow> 'r option) \<Rightarrow> wasm_module \<Rightarrow> event list \<Rightarrow> 'r system \<Rightarrow> 'r system option" where
  "run parse M [] s = Some s"
| "run parse M (ev # evs) s =
     (case step parse M ev s of None \<Rightarrow> None | Some s' \<Rightarrow> run parse M evs s')"

text \<open>
  The system before any request: the globals as they are (the module instantiated or
  not, dead or not), nothing queued, no drain loop.
\<close>

definition start :: "bridge \<Rightarrow> 'r system" where
  "start g =
     \<lparr>globals = g\<lparr>messageQueue := [], messageInProgress := False\<rparr>,
      awaiting = [], promises = 0, history = [], delivered = []\<rparr>"

fun is_marker :: "action \<Rightarrow> bool" where
  "is_marker (Dequeued p) = True"
| "is_marker (Settled p) = True"
| "is_marker a = False"

fun is_export_call :: "action \<Rightarrow> bool" where
  "is_export_call (Dequeued p) = False"
| "is_export_call (Settled p) = False"
| "is_export_call (CopyToMemory ptr bytes) = False"
| "is_export_call a = True"

subsection \<open>\<^verbatim>\<open>parseDiagnostics\<close>\<close>

text \<open>
  The values of JavaScript that \<^verbatim>\<open>JSON.parse\<close> produces, and \<^verbatim>\<open>undefined\<close>. The type of the
  numbers is left open; \<open>0\<close> is the number that is not truthy.
\<close>

datatype 'n jsval =
    JUndefined
  | JNull
  | JBool bool
  | JNumber 'n
  | JString string
  | JArray "'n jsval list"
  | JObject "(string \<times> 'n jsval) list"

fun truthy :: "('n::zero) jsval \<Rightarrow> bool" where
  "truthy JUndefined = False"
| "truthy JNull = False"
| "truthy (JBool b) = b"
| "truthy (JNumber x) = (x \<noteq> 0)"
| "truthy (JString s) = (s \<noteq> [])"
| "truthy (JArray xs) = True"
| "truthy (JObject kvs) = True"

text \<open>
  Reading a property of a value that is neither \<^verbatim>\<open>null\<close> nor \<^verbatim>\<open>undefined\<close>, for the
  property names that \<^verbatim>\<open>parseDiagnostics\<close> reads (\<^verbatim>\<open>diagnostics\<close>, \<^verbatim>\<open>list\<close>, \<^verbatim>\<open>region\<close>,
  \<^verbatim>\<open>start_line\<close>, ...): none of them is a property of an array, a string, a number or a
  boolean, or inherited by an object.
\<close>

fun js_get :: "'n jsval \<Rightarrow> string \<Rightarrow> 'n jsval" where
  "js_get (JObject kvs) k = (case map_of kvs k of None \<Rightarrow> JUndefined | Some v \<Rightarrow> v)"
| "js_get v k = JUndefined"

text \<open>Reading a property of \<^verbatim>\<open>null\<close> or \<^verbatim>\<open>undefined\<close> throws a \<^verbatim>\<open>TypeError\<close>.\<close>

definition get_prop :: "'n jsval \<Rightarrow> string \<Rightarrow> js_error + 'n jsval" where
  "get_prop v k = (if v = JUndefined \<or> v = JNull then Inl TypeError else Inr (js_get v k))"

fun is_number :: "'n jsval \<Rightarrow> bool" where
  "is_number (JNumber x) = True"
| "is_number v = False"

fun elements :: "'n jsval \<Rightarrow> 'n jsval list option" where
  "elements (JArray xs) = Some xs"
| "elements v = None"

record 'n Region =
  start_line :: "'n jsval"
  start_column :: "'n jsval"
  end_line :: "'n jsval"
  end_column :: "'n jsval"

record 'n Diagnostic =
  severity :: "'n jsval"
  message_text :: "'n jsval"
  region :: "'n Region"

text \<open>
  The test of the loop body, for an entry \<open>diag\<close> that is not \<^verbatim>\<open>null\<close>:
  \<^verbatim>\<open>diag.region && typeof diag.region.start_line === "number" && ... \<close>
\<close>

definition has_valid_region :: "('n::zero) jsval \<Rightarrow> bool" where
  "has_valid_region diag =
     (truthy (js_get diag ''region'') \<and>
      is_number (js_get (js_get diag ''region'') ''start_line'') \<and>
      is_number (js_get (js_get diag ''region'') ''start_column'') \<and>
      is_number (js_get (js_get diag ''region'') ''end_line'') \<and>
      is_number (js_get (js_get diag ''region'') ''end_column''))"

text \<open>The object \<^verbatim>\<open>parsedDiag\<close> built from an entry.\<close>

definition parsedDiag :: "'n jsval \<Rightarrow> 'n Diagnostic" where
  "parsedDiag diag =
     \<lparr>severity = js_get diag ''severity'',
      message_text = js_get diag ''message'',
      region =
        \<lparr>start_line = js_get (js_get diag ''region'') ''start_line'',
         start_column = js_get (js_get diag ''region'') ''start_column'',
         end_line = js_get (js_get diag ''region'') ''end_line'',
         end_column = js_get (js_get diag ''region'') ''end_column''\<rparr>\<rparr>"

text \<open>
  The loop \<^verbatim>\<open>for (const diag of result.diagnostics.list)\<close>, with the array
  \<^verbatim>\<open>diagnostics\<close> built so far. \<^verbatim>\<open>diag.region\<close> throws when the entry is \<^verbatim>\<open>null\<close>.
\<close>

fun parse_list ::
  "('n::zero) jsval list \<Rightarrow> 'n Diagnostic list \<Rightarrow> js_error + 'n Diagnostic list" where
  "parse_list [] diagnostics = Inr diagnostics"
| "parse_list (diag # rest) diagnostics =
     (case get_prop diag ''region'' of
        Inl e \<Rightarrow> Inl e
      | Inr r \<Rightarrow>
          if has_valid_region diag
          then parse_list rest (diagnostics @ [parsedDiag diag])
          else parse_list rest diagnostics)"

text \<open>
  \<^verbatim>\<open>parseDiagnostics(result)\<close>. The guard is
  \<^verbatim>\<open>result.diagnostics && result.diagnostics.list && Array.isArray(result.diagnostics.list)\<close>.
  The block that prints \<^verbatim>\<open>debug_counts\<close> afterwards reads properties of truthy values
  only and changes nothing.
\<close>

definition parseDiagnostics :: "('n::zero) jsval \<Rightarrow> js_error + 'n Diagnostic list" where
  "parseDiagnostics result =
     (case get_prop result ''diagnostics'' of
        Inl e \<Rightarrow> Inl e
      | Inr d \<Rightarrow>
          if truthy d \<and> truthy (js_get d ''list'')
          then (case elements (js_get d ''list'') of
                  None \<Rightarrow> Inr []
                | Some list \<Rightarrow> parse_list list [])
          else Inr [])"

section \<open>Null-terminated strings\<close>

lemma zero_in_drop_iff:
  "(0 \<in> set (drop p memory)) = (\<exists>i\<ge>p. i < length memory \<and> memory ! i = 0)"
proof
  assume "0 \<in> set (drop p memory)"
  then obtain k where k: "k < length (drop p memory)" "drop p memory ! k = 0"
    by (auto simp: in_set_conv_nth)
  then have "p + k < length memory \<and> memory ! (p + k) = 0" by simp
  then show "\<exists>i\<ge>p. i < length memory \<and> memory ! i = 0"
    by (intro exI [of _ "p + k"]) simp
next
  assume "\<exists>i\<ge>p. i < length memory \<and> memory ! i = 0"
  then obtain i where i: "p \<le> i" "i < length memory" "memory ! i = 0" by blast
  then have "i - p < length (drop p memory)" "drop p memory ! (i - p) = 0" by simp_all
  then show "0 \<in> set (drop p memory)" by (metis nth_mem)
qed

lemma scan_terminator_finds:
  "0 \<in> set (drop e memory) \<Longrightarrow>
   scan_terminator memory e = Some (e + length (takeWhile (\<lambda>b. b \<noteq> 0) (drop e memory)))"
proof (induction "length memory - e" arbitrary: e)
  case 0
  then show ?case by simp
next
  case (Suc n)
  from Suc.prems have lt: "e < length memory" by (cases "e < length memory") auto
  then have dr: "drop e memory = memory ! e # drop (Suc e) memory"
    by (simp add: Cons_nth_drop_Suc)
  show ?case
  proof (cases "memory ! e = 0")
    case True
    with lt dr show ?thesis by (subst scan_terminator.simps) simp
  next
    case False
    with Suc.prems dr have "0 \<in> set (drop (Suc e) memory)" by auto
    moreover from Suc.hyps(2) lt have "n = length memory - Suc e" by simp
    ultimately have "scan_terminator memory (Suc e) =
        Some (Suc e + length (takeWhile (\<lambda>b. b \<noteq> 0) (drop (Suc e) memory)))"
      using Suc.hyps(1) by blast
    with False dr show ?thesis by (subst scan_terminator.simps) simp
  qed
qed

lemma drop_zero_step:
  "0 \<in> set (drop (e + 1) memory) \<Longrightarrow> (0::byte) \<in> set (drop e memory)"
proof -
  assume a: "0 \<in> set (drop (e + 1) memory)"
  have "drop (e + 1) memory = drop 1 (drop e memory)" by simp
  with a have "0 \<in> set (drop 1 (drop e memory))" by simp
  then show ?thesis by (rule in_set_dropD)
qed

lemma drop_zero_here:
  "e < length memory \<Longrightarrow> memory ! e = 0 \<Longrightarrow> (0::byte) \<in> set (drop e memory)"
  by (simp add: Cons_nth_drop_Suc [symmetric])

lemma scan_terminator_Some_zero:
  assumes "scan_terminator memory e = Some y"
  shows "0 \<in> set (drop e memory)"
proof (rule scan_terminator.raw_induct [where P = "\<lambda>m i y. 0 \<in> set (drop i m)", OF _ assms])
  fix g and m :: "byte list" and i y :: nat
  assume IH: "\<And>m' i' y'. g m' i' = Some y' \<Longrightarrow> 0 \<in> set (drop i' m')"
    and body: "(if i < length m \<and> m ! i = 0 then Some i else g m (i + 1)) = Some y"
  show "0 \<in> set (drop i m)"
  proof (cases "i < length m \<and> m ! i = 0")
    case True
    then show ?thesis by (simp add: drop_zero_here)
  next
    case False
    with body have "g m (i + 1) = Some y" by (simp split: if_splits)
    then have "0 \<in> set (drop (i + 1) m)" by (rule IH)
    then show ?thesis by (rule drop_zero_step)
  qed
qed

lemma scan_terminator_diverges:
  "0 \<notin> set (drop e memory) \<Longrightarrow> scan_terminator memory e = None"
  using scan_terminator_Some_zero by (cases "scan_terminator memory e") auto

lemma readNullTerminatedString_finds:
  "ptr \<noteq> 0 \<Longrightarrow> 0 \<in> set (drop ptr memory) \<Longrightarrow>
   readNullTerminatedString (Some memory) ptr = Some (takeWhile (\<lambda>b. b \<noteq> 0) (drop ptr memory))"
proof -
  assume p: "ptr \<noteq> 0" and z: "0 \<in> set (drop ptr memory)"
  have "take (length (takeWhile (\<lambda>b. b \<noteq> 0) (drop ptr memory))) (drop ptr memory) =
      takeWhile (\<lambda>b. b \<noteq> 0) (drop ptr memory)"
    by (rule takeWhile_eq_take [symmetric])
  with p z show ?thesis
    by (simp add: readNullTerminatedString_def scan_terminator_finds)
qed

lemma readNullTerminatedString_diverges:
  "ptr \<noteq> 0 \<Longrightarrow> 0 \<notin> set (drop ptr memory) \<Longrightarrow>
   readNullTerminatedString (Some memory) ptr = None"
  by (simp add: readNullTerminatedString_def scan_terminator_diverges)

text \<open>
  Claim C10. \<^verbatim>\<open>readNullTerminatedString\<close> returns the empty string when the pointer is zero
  or the memory is not available. Otherwise, when some byte at or after the pointer inside
  the buffer is zero, it returns the bytes from the pointer up to the first zero byte; and
  when no such byte exists, the scan does not return.
\<close>

theorem readNullTerminatedString_returns_iff_terminator:
  "readNullTerminatedString None ptr = Some [] \<and>
   readNullTerminatedString mem 0 = Some [] \<and>
   (ptr \<noteq> 0 \<and> (\<exists>i\<ge>ptr. i < length memory \<and> memory ! i = 0) \<longrightarrow>
      readNullTerminatedString (Some memory) ptr =
        Some (takeWhile (\<lambda>b. b \<noteq> 0) (drop ptr memory))) \<and>
   (ptr \<noteq> 0 \<and> \<not> (\<exists>i\<ge>ptr. i < length memory \<and> memory ! i = 0) \<longrightarrow>
      readNullTerminatedString (Some memory) ptr = None)"
proof (intro conjI impI)
  show "readNullTerminatedString None ptr = Some []"
    by (simp add: readNullTerminatedString_def)
  show "readNullTerminatedString mem 0 = Some []"
    by (simp add: readNullTerminatedString_def split: option.split)
next
  assume "ptr \<noteq> 0 \<and> (\<exists>i\<ge>ptr. i < length memory \<and> memory ! i = 0)"
  then show "readNullTerminatedString (Some memory) ptr =
      Some (takeWhile (\<lambda>b. b \<noteq> 0) (drop ptr memory))"
    using readNullTerminatedString_finds zero_in_drop_iff by blast
next
  assume "ptr \<noteq> 0 \<and> \<not> (\<exists>i\<ge>ptr. i < length memory \<and> memory ! i = 0)"
  then show "readNullTerminatedString (Some memory) ptr = None"
    using readNullTerminatedString_diverges zero_in_drop_iff by blast
qed

theorem readNullTerminatedString_returns_iff_terminator_witness:
  "readNullTerminatedString (Some [1, 2, 0x52, 0x6F, 0x63, 0, 7]) 2 = Some [0x52, 0x6F, 0x63] \<and>
   readNullTerminatedString (Some [1, 2, 0x52, 0x6F, 0x63]) 2 = None"
proof -
  have a: "(\<exists>i\<ge>2. i < length [1, 2, 0x52, 0x6F, 0x63, 0, 7 :: byte] \<and>
      [1, 2, 0x52, 0x6F, 0x63, 0, 7 :: byte] ! i = 0)"
    by (intro exI [of _ 5]) simp
  have b: "\<not> (\<exists>i\<ge>2. i < length [1, 2, 0x52, 0x6F, 0x63 :: byte] \<and>
      [1, 2, 0x52, 0x6F, 0x63 :: byte] ! i = 0)"
    by (simp add: nth_Cons' less_Suc_eq)
  show ?thesis
    using a b
      readNullTerminatedString_returns_iff_terminator
        [of 2 None "[1, 2, 0x52, 0x6F, 0x63, 0, 7]"]
      readNullTerminatedString_returns_iff_terminator
        [of 2 None "[1, 2, 0x52, 0x6F, 0x63]"]
    by simp
qed

section \<open>The column of hover and type queries\<close>

lemma stringify_four:
  "JSON_stringify [a, b, c, d] =
     ''{'' @ stringify_property a @ '','' @ stringify_property b @ '','' @
     stringify_property c @ '','' @ stringify_property d @ ''}''"
  by (simp add: JSON_stringify_def)

text \<open>
  Claim C7, as the code has it. A hover query issued through \<^verbatim>\<open>getHoverInfo\<close> for the
  editor's 0-based column \<open>c\<close> is encoded with \<^verbatim>\<open>"ch"\<close> equal to \<open>c + 1\<close> and with the line
  it was given; a type query issued through \<^verbatim>\<open>getTypeInfo\<close> of the older bridge is
  encoded with \<^verbatim>\<open>"ch"\<close> equal to \<open>c\<close> itself, and with the line it was given (the
  module's \<^verbatim>\<open>GET_TYPE_INFO\<close> is documented as taking a 0-based column).
\<close>

theorem hover_column_incremented_type_column_unchanged:
  "JSON_stringify (getHoverInfo_request identifier line c) =
     ''{'' @ stringify_property (''type'', Str ''GET_HOVER_INFO'') @ '','' @
     stringify_property (''identifier'', Str identifier) @ '','' @
     stringify_property (''line'', Num line) @ '','' @
     stringify_property (''ch'', Num (c + 1)) @ ''}'' \<and>
   JSON_stringify (getTypeInfo_request identifier line c) =
     ''{'' @ stringify_property (''type'', Str ''GET_TYPE_INFO'') @ '','' @
     stringify_property (''identifier'', Str identifier) @ '','' @
     stringify_property (''line'', Num line) @ '','' @
     stringify_property (''ch'', Num c) @ ''}''"
  by (simp only: getHoverInfo_request_def getTypeInfo_request_def stringify_four simp_thms)

text \<open>
  The claim as stated fails for \<^verbatim>\<open>GET_TYPE_INFO\<close>: the query for column 5 of line 3 is
  sent with \<^verbatim>\<open>"ch":5\<close>, not 6.
\<close>

theorem getTypeInfo_column_counterexample:
  \<open>JSON_stringify (getTypeInfo_request ''foo'' 3 5) =
     ''{"type":"GET_TYPE_INFO","identifier":"foo","line":3,"ch":5}'' \<and>
   JSON_stringify (getTypeInfo_request ''foo'' 3 5) \<noteq>
     ''{"type":"GET_TYPE_INFO","identifier":"foo","line":3,"ch":6}''\<close>
  by (simp add: JSON_stringify_def getTypeInfo_request_def stringify_property_def
      quote_string_def quote_char_def number_to_string_def digit_char_def decimal.simps)

lemma getHoverInfo_example:
  \<open>JSON_stringify (getHoverInfo_request ''foo'' 3 5) =
     ''{"type":"GET_HOVER_INFO","identifier":"foo","line":3,"ch":6}''\<close>
  by (simp add: JSON_stringify_def getHoverInfo_request_def stringify_property_def
      quote_string_def quote_char_def number_to_string_def digit_char_def decimal.simps)

section \<open>Diagnostics without a well-formed region are dropped\<close>

lemma has_valid_region_iff:
  "has_valid_region diag =
     (is_number (js_get (js_get diag ''region'') ''start_line'') \<and>
      is_number (js_get (js_get diag ''region'') ''start_column'') \<and>
      is_number (js_get (js_get diag ''region'') ''end_line'') \<and>
      is_number (js_get (js_get diag ''region'') ''end_column''))"
  by (cases "js_get diag ''region''") (auto simp: has_valid_region_def)

text \<open>
  The loop over a list without a \<^verbatim>\<open>null\<close> entry, written out: the entries that pass
  the test, in their order, each as the object the loop body builds from it.
\<close>

lemma parse_list_copies:
  "JNull \<notin> set list \<Longrightarrow> JUndefined \<notin> set list \<Longrightarrow>
   parse_list list diagnostics =
     Inr (diagnostics @
       (map (\<lambda>diag.
           \<lparr>severity = js_get diag ''severity'',
            message_text = js_get diag ''message'',
            region =
              \<lparr>start_line = js_get (js_get diag ''region'') ''start_line'',
               start_column = js_get (js_get diag ''region'') ''start_column'',
               end_line = js_get (js_get diag ''region'') ''end_line'',
               end_column = js_get (js_get diag ''region'') ''end_column''\<rparr>\<rparr>)
         (filter (\<lambda>diag.
             is_number (js_get (js_get diag ''region'') ''start_line'') \<and>
             is_number (js_get (js_get diag ''region'') ''start_column'') \<and>
             is_number (js_get (js_get diag ''region'') ''end_line'') \<and>
             is_number (js_get (js_get diag ''region'') ''end_column'')) list)))"
proof (induction list arbitrary: diagnostics)
  case Nil
  show ?case by simp
next
  case (Cons diag rest)
  from Cons.prems have "get_prop diag ''region'' = Inr (js_get diag ''region'')"
    by (auto simp: get_prop_def)
  moreover from Cons.prems have "JNull \<notin> set rest" "JUndefined \<notin> set rest"
    by simp_all
  ultimately show ?case
    by (simp add: Cons.IH has_valid_region_iff parsedDiag_def)
qed

text \<open>
  An entry that is \<^verbatim>\<open>null\<close> has no property to read: \<^verbatim>\<open>diag.region\<close> throws, the loop
  ends there, and \<^verbatim>\<open>parseDiagnostics\<close> returns nothing.
\<close>

lemma parse_list_null_entry:
  "JNull \<in> set list \<or> JUndefined \<in> set list \<Longrightarrow>
   parse_list list diagnostics = Inl TypeError"
  by (induction list arbitrary: diagnostics) (auto simp: get_prop_def)

lemma parseDiagnostics_null_entry:
  assumes "js_get (js_get result ''diagnostics'') ''list'' = JArray list"
    and "JNull \<in> set list \<or> JUndefined \<in> set list"
  shows "parseDiagnostics result = Inl TypeError"
proof -
  from assms(1) have d: "truthy (js_get result ''diagnostics'')"
    by (cases "js_get result ''diagnostics''") auto
  from assms(1) have r: "result \<noteq> JUndefined" "result \<noteq> JNull"
    by auto
  from assms(2) have "parse_list list [] = Inl TypeError"
    by (rule parse_list_null_entry)
  with assms(1) d r show ?thesis
    by (simp add: parseDiagnostics_def get_prop_def)
qed

text \<open>
  Claim C8, for a list without a \<^verbatim>\<open>null\<close> entry. When \<^verbatim>\<open>result.diagnostics.list\<close> is an
  array none of whose entries is \<^verbatim>\<open>null\<close>, \<^verbatim>\<open>parseDiagnostics\<close> returns, in their order,
  exactly the entries whose \<^verbatim>\<open>region\<close> has the four fields \<^verbatim>\<open>start_line\<close>,
  \<^verbatim>\<open>start_column\<close>, \<^verbatim>\<open>end_line\<close>, \<^verbatim>\<open>end_column\<close> as numbers. Each of them comes out with
  the \<^verbatim>\<open>severity\<close> and the \<^verbatim>\<open>message\<close> of the entry and with the four fields of its
  region, each under its own name and as it is. Every other entry is dropped.
\<close>

theorem parseDiagnostics_keeps_valid_regions:
  assumes "js_get (js_get result ''diagnostics'') ''list'' = JArray list"
    and "JNull \<notin> set list" and "JUndefined \<notin> set list"
  shows "parseDiagnostics result =
    Inr (map (\<lambda>diag.
           \<lparr>severity = js_get diag ''severity'',
            message_text = js_get diag ''message'',
            region =
              \<lparr>start_line = js_get (js_get diag ''region'') ''start_line'',
               start_column = js_get (js_get diag ''region'') ''start_column'',
               end_line = js_get (js_get diag ''region'') ''end_line'',
               end_column = js_get (js_get diag ''region'') ''end_column''\<rparr>\<rparr>)
         (filter (\<lambda>diag.
             is_number (js_get (js_get diag ''region'') ''start_line'') \<and>
             is_number (js_get (js_get diag ''region'') ''start_column'') \<and>
             is_number (js_get (js_get diag ''region'') ''end_line'') \<and>
             is_number (js_get (js_get diag ''region'') ''end_column'')) list))"
proof -
  from assms(1) have d: "truthy (js_get result ''diagnostics'')"
    by (cases "js_get result ''diagnostics''") auto
  from assms(1) have r: "result \<noteq> JUndefined" "result \<noteq> JNull"
    by auto
  from assms(2,3) have "parse_list list [] =
     Inr ([] @
       (map (\<lambda>diag.
           \<lparr>severity = js_get diag ''severity'',
            message_text = js_get diag ''message'',
            region =
              \<lparr>start_line = js_get (js_get diag ''region'') ''start_line'',
               start_column = js_get (js_get diag ''region'') ''start_column'',
               end_line = js_get (js_get diag ''region'') ''end_line'',
               end_column = js_get (js_get diag ''region'') ''end_column''\<rparr>\<rparr>)
         (filter (\<lambda>diag.
             is_number (js_get (js_get diag ''region'') ''start_line'') \<and>
             is_number (js_get (js_get diag ''region'') ''start_column'') \<and>
             is_number (js_get (js_get diag ''region'') ''end_line'') \<and>
             is_number (js_get (js_get diag ''region'') ''end_column'')) list)))"
    by (rule parse_list_copies)
  with assms(1) d r show ?thesis
    by (simp add: parseDiagnostics_def get_prop_def)
qed

text \<open>
  Four diagnostics: the first and the last have a complete region, the second has no
  \<^verbatim>\<open>end_column\<close>, the third no region at all. The six values of a region and a diagnostic
  are pairwise different in the first, so that no field can stand in for another.
\<close>

definition diagnostic_with_region :: "int jsval" where
  "diagnostic_with_region =
     JObject [(''severity'', JString ''error''), (''message'', JString ''UNUSED VARIABLE''),
       (''region'', JObject [(''start_line'', JNumber 1), (''start_column'', JNumber 2),
          (''end_line'', JNumber 3), (''end_column'', JNumber 9)])]"

definition diagnostic_without_end_column :: "int jsval" where
  "diagnostic_without_end_column =
     JObject [(''severity'', JString ''warning''), (''message'', JString ''TYPE MISMATCH''),
       (''region'', JObject [(''start_line'', JNumber 4), (''start_column'', JNumber 1),
          (''end_line'', JNumber 4)])]"

definition diagnostic_without_region :: "int jsval" where
  "diagnostic_without_region =
     JObject [(''severity'', JString ''info''), (''message'', JString ''NOTE'')]"

definition second_diagnostic_with_region :: "int jsval" where
  "second_diagnostic_with_region =
     JObject [(''severity'', JString ''warning''), (''message'', JString ''UNUSED IMPORT''),
       (''region'', JObject [(''start_line'', JNumber 5), (''start_column'', JNumber 6),
          (''end_line'', JNumber 7), (''end_column'', JNumber 8)])]"

definition compile_result :: "int jsval" where
  "compile_result =
     JObject [(''status'', JString ''SUCCESS''),
       (''diagnostics'', JObject [(''list'',
          JArray [diagnostic_with_region, diagnostic_without_end_column,
            diagnostic_without_region, second_diagnostic_with_region])])]"

theorem parseDiagnostics_keeps_valid_regions_witness:
  "js_get (js_get compile_result ''diagnostics'') ''list'' =
     JArray [diagnostic_with_region, diagnostic_without_end_column,
        diagnostic_without_region, second_diagnostic_with_region] \<and>
   JNull \<notin> set [diagnostic_with_region, diagnostic_without_end_column,
        diagnostic_without_region, second_diagnostic_with_region] \<and>
   JUndefined \<notin> set [diagnostic_with_region, diagnostic_without_end_column,
        diagnostic_without_region, second_diagnostic_with_region] \<and>
   parseDiagnostics compile_result =
     Inr [\<lparr>severity = JString ''error'', message_text = JString ''UNUSED VARIABLE'',
           region = \<lparr>start_line = JNumber 1, start_column = JNumber 2,
                     end_line = JNumber 3, end_column = JNumber 9\<rparr>\<rparr>,
          \<lparr>severity = JString ''warning'', message_text = JString ''UNUSED IMPORT'',
           region = \<lparr>start_line = JNumber 5, start_column = JNumber 6,
                     end_line = JNumber 7, end_column = JNumber 8\<rparr>\<rparr>]"
proof -
  have a: "js_get (js_get compile_result ''diagnostics'') ''list'' =
      JArray [diagnostic_with_region, diagnostic_without_end_column,
        diagnostic_without_region, second_diagnostic_with_region]"
    by (simp add: compile_result_def)
  have b: "JNull \<notin> set [diagnostic_with_region, diagnostic_without_end_column,
        diagnostic_without_region, second_diagnostic_with_region]"
    by (simp add: diagnostic_with_region_def diagnostic_without_end_column_def
        diagnostic_without_region_def second_diagnostic_with_region_def)
  have c: "JUndefined \<notin> set [diagnostic_with_region, diagnostic_without_end_column,
        diagnostic_without_region, second_diagnostic_with_region]"
    by (simp add: diagnostic_with_region_def diagnostic_without_end_column_def
        diagnostic_without_region_def second_diagnostic_with_region_def)
  from parseDiagnostics_keeps_valid_regions [OF a b c]
  have "parseDiagnostics compile_result =
     Inr [\<lparr>severity = JString ''error'', message_text = JString ''UNUSED VARIABLE'',
           region = \<lparr>start_line = JNumber 1, start_column = JNumber 2,
                     end_line = JNumber 3, end_column = JNumber 9\<rparr>\<rparr>,
          \<lparr>severity = JString ''warning'', message_text = JString ''UNUSED IMPORT'',
           region = \<lparr>start_line = JNumber 5, start_column = JNumber 6,
                     end_line = JNumber 7, end_column = JNumber 8\<rparr>\<rparr>]"
    by (simp add: diagnostic_with_region_def diagnostic_without_end_column_def
        diagnostic_without_region_def second_diagnostic_with_region_def)
  with a b c show ?thesis by simp
qed

text \<open>
  The same two well-formed diagnostics with a \<^verbatim>\<open>null\<close> entry between them, a list that
  \<^verbatim>\<open>JSON.parse\<close> can return: \<^verbatim>\<open>parseDiagnostics\<close> throws at the second entry, so neither
  of the two diagnostics that carry all four numeric fields is kept.
\<close>

definition compile_result_with_null_entry :: "int jsval" where
  "compile_result_with_null_entry =
     JObject [(''status'', JString ''SUCCESS''),
       (''diagnostics'', JObject [(''list'',
          JArray [diagnostic_with_region, JNull, second_diagnostic_with_region])])]"

theorem null_entry_counterexample:
  "has_valid_region diagnostic_with_region \<and>
   has_valid_region second_diagnostic_with_region \<and>
   parseDiagnostics compile_result_with_null_entry = Inl TypeError"
  by (simp add: compile_result_with_null_entry_def parseDiagnostics_def get_prop_def
      diagnostic_with_region_def second_diagnostic_with_region_def
      has_valid_region_def parsedDiag_def)

section \<open>What one call of \<^verbatim>\<open>sendMessageToWasm\<close> does\<close>

text \<open>
  A call of \<^verbatim>\<open>sendMessageToWasm\<close> that finds \<^verbatim>\<open>wasmIsDead\<close> set throws before its \<^verbatim>\<open>try\<close>
  block. A call adds no queue events to the trace, and of the globals it changes at most
  \<^verbatim>\<open>wasmIsDead\<close>, which it can only set.
\<close>

lemma sendMessageToWasm_dead:
  "wasmIsDead g \<Longrightarrow> sendMessageToWasm parse M g h msg = Some (Inl crashed_error, g, h)"
  by (simp add: sendMessageToWasm_def)

lemma fetch_debug_log_markers:
  "fetch_debug_log M h = Some h' \<Longrightarrow> filter is_marker h' = filter is_marker h"
  by (auto simp: fetch_debug_log_def split: if_splits outcome.splits option.splits)

lemma drain_debug_log_markers:
  "drain_debug_log M h = Some (e, h') \<Longrightarrow> filter is_marker h' = filter is_marker h"
  by (auto simp: drain_debug_log_def split: if_splits outcome.splits option.splits
      dest: fetch_debug_log_markers)

lemma invoke_and_decode_markers:
  "invoke_and_decode parse M h n mp rp = Some (r, ptrs, h') \<Longrightarrow>
   filter is_marker h' = filter is_marker h"
  by (auto simp: invoke_and_decode_def Let_def
      split: if_splits outcome.splits option.splits sum.splits
      dest: drain_debug_log_markers)

lemma try_block_markers:
  "try_block parse M h msg = Some (r, ptrs, h') \<Longrightarrow> filter is_marker h' = filter is_marker h"
  by (auto simp: try_block_def Let_def split: if_splits outcome.splits
      dest: invoke_and_decode_markers)

lemma catch_block_markers:
  "catch_block M g h e = Some (g', h') \<Longrightarrow>
   filter is_marker h' = filter is_marker h \<and> (g' = g \<or> g' = g\<lparr>wasmIsDead := True\<rparr>)"
  by (auto simp: catch_block_def split: if_splits option.splits dest: fetch_debug_log_markers)

lemma finally_block_markers:
  "finally_block M ptrs h = (e, h') \<Longrightarrow> filter is_marker h' = filter is_marker h"
  by (auto simp: finally_block_def Let_def split: if_splits)

lemma sendMessageToWasm_markers:
  assumes "sendMessageToWasm parse M g h msg = Some (r, g', h')"
  shows "filter is_marker h' = filter is_marker h \<and> (g' = g \<or> g' = g\<lparr>wasmIsDead := True\<rparr>)"
proof (cases "wasmIsDead g \<or> \<not> wasmModule g \<or> \<not> wasmMemory g")
  case True
  with assms show ?thesis by (auto simp: sendMessageToWasm_def split: if_splits)
next
  case False
  with assms obtain r1 ptrs h1 g2 h2 e3 where
    t: "try_block parse M h msg = Some (r1, ptrs, h1)"
    and c: "(case r1 of Inl e \<Rightarrow> catch_block M g h1 e | Inr v \<Rightarrow> Some (g, h1)) = Some (g2, h2)"
    and f: "finally_block M ptrs h2 = (e3, h')" and g': "g' = g2"
    by (auto simp: sendMessageToWasm_def split: option.splits prod.splits)
  from t have 1: "filter is_marker h1 = filter is_marker h" by (rule try_block_markers)
  from c have 2: "filter is_marker h2 = filter is_marker h1 \<and> (g2 = g \<or> g2 = g\<lparr>wasmIsDead := True\<rparr>)"
    by (cases r1) (auto dest: catch_block_markers)
  from f have 3: "filter is_marker h' = filter is_marker h2" by (rule finally_block_markers)
  from 1 2 3 g' show ?thesis by simp
qed

text \<open>
  A trap inside the \<^verbatim>\<open>try\<close> block sets \<^verbatim>\<open>wasmIsDead\<close>.
\<close>

lemma runtime_fault_sets_wasmIsDead:
  assumes "\<not> wasmIsDead g" and "wasmModule g" and "wasmMemory g"
    and "try_block parse M h msg = Some (Inl RuntimeError, ptrs, h1)"
    and "sendMessageToWasm parse M g h msg = Some (r, g', h')"
  shows "wasmIsDead g'"
  using assms
  by (auto simp: sendMessageToWasm_def catch_block_def split: option.splits prod.splits)

text \<open>
  The conditions under which the \<^verbatim>\<open>try\<close> block gets as far as the call of the module:
  \<^verbatim>\<open>allocateMessageBuffer\<close> returns a non-zero address \<open>messagePtr\<close> at which the
  request fits into the memory (\<open>request_copied\<close>, with the trace \<open>copied\<close> at that
  point), and \<^verbatim>\<open>allocateResponseBuffer\<close> returns a non-zero address \<open>responsePtr\<close>
  (\<open>buffers_reserved\<close>, with the trace \<open>reserved\<close>).
\<close>

definition request_bytes :: "WasmMessage \<Rightarrow> byte list" where
  "request_bytes msg = TextEncoder_encode (JSON_stringify msg)"

definition copied :: "action list \<Rightarrow> WasmMessage \<Rightarrow> nat \<Rightarrow> action list" where
  "copied h msg messagePtr =
     h @ [AllocateMessageBuffer (length (request_bytes msg)),
          CopyToMemory messagePtr (request_bytes msg)]"

definition request_copied :: "wasm_module \<Rightarrow> action list \<Rightarrow> WasmMessage \<Rightarrow> nat \<Rightarrow> bool" where
  "request_copied M h msg messagePtr =
     (respond M h (AllocateMessageBuffer (length (request_bytes msg))) = Returns messagePtr \<and>
      messagePtr \<noteq> 0 \<and>
      messagePtr + length (request_bytes msg) \<le>
        length (memory_after M (h @ [AllocateMessageBuffer (length (request_bytes msg))])))"

definition reserved :: "action list \<Rightarrow> WasmMessage \<Rightarrow> nat \<Rightarrow> action list" where
  "reserved h msg messagePtr =
     copied h msg messagePtr @ [AllocateResponseBuffer responseBufferSize]"

definition buffers_reserved ::
  "wasm_module \<Rightarrow> action list \<Rightarrow> WasmMessage \<Rightarrow> nat \<Rightarrow> nat \<Rightarrow> bool" where
  "buffers_reserved M h msg messagePtr responsePtr =
     (request_copied M h msg messagePtr \<and>
      respond M (copied h msg messagePtr) (AllocateResponseBuffer responseBufferSize) =
        Returns responsePtr \<and>
      responsePtr \<noteq> 0)"

lemma try_block_reserved:
  "buffers_reserved M h msg mp rp \<Longrightarrow>
   try_block parse M h msg =
     invoke_and_decode parse M (reserved h msg mp) mp (length (request_bytes msg)) rp"
  by (simp add: buffers_reserved_def request_copied_def try_block_def Let_def
      request_bytes_def copied_def reserved_def)

lemma invoke_failed:
  "respond M h3 (ProcessMessage mp n rp responseBufferSize) = Returns resultCode \<Longrightarrow>
   resultCode \<noteq> 0 \<Longrightarrow>
   invoke_and_decode parse M h3 mp n rp =
     Some (Inl (processMessage_failed resultCode), (Some mp, Some rp),
           h3 @ [ProcessMessage mp n rp responseBufferSize])"
  by (simp add: invoke_and_decode_def Let_def)

lemma invoke_undecodable:
  "respond M h3 (ProcessMessage mp n rp responseBufferSize) = Returns 0 \<Longrightarrow>
   decode_response parse
     (memory_after M (h3 @ [ProcessMessage mp n rp responseBufferSize])) rp = Inl e \<Longrightarrow>
   invoke_and_decode parse M h3 mp n rp =
     Some (Inl e, (Some mp, Some rp), h3 @ [ProcessMessage mp n rp responseBufferSize])"
  by (simp add: invoke_and_decode_def Let_def)

lemma sendMessageToWasm_thrown:
  assumes "\<not> wasmIsDead g" "wasmModule g" "wasmMemory g"
    and "try_block parse M h msg = Some (Inl e, ptrs, h1)" and "e \<noteq> RuntimeError"
  shows "sendMessageToWasm parse M g h msg =
     Some (case fst (finally_block M ptrs h1) of Some e' \<Rightarrow> Inl e' | None \<Rightarrow> Inl e,
           g, snd (finally_block M ptrs h1))"
  using assms
  by (cases "finally_block M ptrs h1")
     (auto simp: sendMessageToWasm_def catch_block_def split: option.splits)

lemma finally_block_both:
  "respond M h FreeMessageBuffer \<noteq> Trap \<Longrightarrow>
   respond M (h @ [FreeMessageBuffer]) FreeResponseBuffer \<noteq> Trap \<Longrightarrow>
   finally_block M (Some mp, Some rp) h = (None, h @ [FreeMessageBuffer, FreeResponseBuffer])"
  by (simp add: finally_block_def)

lemma sendMessageToWasm_rejects:
  assumes "\<not> wasmIsDead g" "wasmModule g" "wasmMemory g"
    and "try_block parse M h msg = Some (Inl e, ptrs, h1)" and "e \<noteq> RuntimeError"
  shows "\<exists>e' h'. sendMessageToWasm parse M g h msg = Some (Inl e', g, h')"
  using sendMessageToWasm_thrown [OF assms]
  by (cases "fst (finally_block M ptrs h1)") auto

lemma decode_response_Inr_iff:
  "decode_response parse buffer responsePtr = Inr v \<longleftrightarrow>
     (\<exists>L. getUint32 buffer responsePtr = Some L \<and> 0 < L \<and> L \<le> responseBufferSize - 4 \<and>
          responsePtr + 4 + L \<le> length buffer \<and>
          parse (take L (drop (responsePtr + 4) buffer)) = Some v)"
proof (cases "getUint32 buffer responsePtr")
  case None
  then show ?thesis by (simp add: decode_response_def)
next
  case (Some L)
  show ?thesis
  proof (cases "L = 0 \<or> L > responseBufferSize - 4 \<or> responsePtr + 4 + L > length buffer")
    case True
    with Some show ?thesis by (auto simp: decode_response_def)
  next
    case False
    with Some show ?thesis
      by (cases "parse (take L (drop (responsePtr + 4) buffer))")
         (simp_all add: decode_response_def)
  qed
qed

lemma decode_response_is_error:
  assumes "decode_response parse buffer responsePtr = Inl e"
  shows "e \<noteq> RuntimeError"
proof (cases "getUint32 buffer responsePtr")
  case None
  with assms show ?thesis by (simp add: decode_response_def)
next
  case (Some L)
  show ?thesis
  proof (cases "L = 0 \<or> L > responseBufferSize - 4")
    case True
    with Some assms show ?thesis
      by (auto simp: decode_response_def invalid_response_length_def)
  next
    case False
    show ?thesis
    proof (cases "responsePtr + 4 + L > length buffer")
      case True
      with Some False assms show ?thesis by (simp add: decode_response_def)
    next
      case fits: False
      with Some False assms show ?thesis
        by (cases "parse (take L (drop (responsePtr + 4) buffer))")
           (simp_all add: decode_response_def)
    qed
  qed
qed

lemma error_message_of_enumerated:
  "error_message_of 1 = ''invalid_json'' \<and>
   error_message_of 2 = ''missing_message_type'' \<and>
   error_message_of 3 = ''unknown_message_type'' \<and>
   error_message_of 4 = ''invalid_state_for_message'' \<and>
   error_message_of 5 = ''response_buffer_too_small'' \<and>
   error_message_of 6 = ''internal_error''"
  by (simp add: error_message_of_def errorMessages_def)

section \<open>Sample modules and requests\<close>

text \<open>
  The examples below run the bridge against small modules: \<open>sample_module\<close> reserves the
  request buffer at \<open>messagePtr\<close> and the response buffer at \<open>responsePtr\<close>, answers
  \<^verbatim>\<open>processMessage\<close> with \<open>status\<close>, returns zero from every other export, has no
  debug log, and its memory is 32 zero bytes followed by \<open>response\<close>.
  \<open>JSON_parse_sample\<close> agrees with \<^verbatim>\<open>JSON.parse\<close> on the two texts the examples use:
  \<^verbatim>\<open>{}\<close> is the empty object, \<^verbatim>\<open>oops\<close> is not JSON. \<open>ready\<close> are the globals after
  the module has been instantiated.
\<close>

definition JSON_parse_sample :: "byte list \<Rightarrow> int jsval option" where
  "JSON_parse_sample bytes = (if bytes = [0x7B, 0x7D] then Some (JObject []) else None)"

definition sample_module :: "nat \<Rightarrow> nat \<Rightarrow> outcome \<Rightarrow> byte list \<Rightarrow> wasm_module" where
  "sample_module messagePtr responsePtr status response =
     \<lparr>has_getDebugLogBuffer = False, has_clearDebugLog = False,
      respond = (\<lambda>h call. case call of
          AllocateMessageBuffer n \<Rightarrow> Returns messagePtr
        | AllocateResponseBuffer n \<Rightarrow> Returns responsePtr
        | ProcessMessage mp n rp cap \<Rightarrow> status
        | _ \<Rightarrow> Returns 0),
      memory_after = (\<lambda>h. replicate 32 0 @ response)\<rparr>"

definition ready :: bridge where
  "ready = \<lparr>wasmModule = True, wasmMemory = True, messageQueue = [],
     messageInProgress = False, wasmIsDead = False\<rparr>"

definition init_request :: WasmMessage where
  "init_request = [(''type'', Str ''INIT'')]"

lemmas bridge_eval =
  start_def sendMessageQueued_def processMessageQueue_def drain_loop_def resume_def ready_def
  resetWasm_def
  sendMessageToWasm_def try_block_def invoke_and_decode_def sample_module_def
  catch_block_def fetch_debug_log_def drain_debug_log_def finally_block_def
  sendMessageToWasm_ptr_def try_block_ptr_def finally_block_ptr_def
  decode_response_def getUint32_def JSON_parse_sample_def
  request_bytes_def init_request_def
  TextEncoder_encode_def JSON_stringify_def stringify_property_def quote_string_def quote_char_def
  responseBufferSize_def nth_append Let_def

section \<open>Failed invocations\<close>

definition null_response_error :: js_error where
  "null_response_error =
     Error ''WASM processAndRespond returned null, indicating an internal error''"

lemma try_block_ptr_null:
  assumes "request_copied M h msg mp"
    and "respond M (copied h msg mp) (ProcessAndRespond mp (length (request_bytes msg))) = Returns 0"
  shows "try_block_ptr parse M h msg =
     (if respond M (copied h msg mp @ [ProcessAndRespond mp (length (request_bytes msg))])
           FreeMessageBuffer = Trap
      then Some (Inl RuntimeError, (Some mp, Some 0),
             copied h msg mp @ [ProcessAndRespond mp (length (request_bytes msg)), FreeMessageBuffer])
      else Some (Inl null_response_error, (None, Some 0),
             copied h msg mp @ [ProcessAndRespond mp (length (request_bytes msg)), FreeMessageBuffer]))"
  using assms
  by (simp add: request_copied_def try_block_ptr_def Let_def request_bytes_def copied_def
      null_response_error_def)

lemma sendMessageToWasm_ptr_result:
  "sendMessageToWasm_ptr parse M g h msg = Some (Inr v, g', h') \<Longrightarrow>
   \<exists>ptrs h1. try_block_ptr parse M h msg = Some (Inr v, ptrs, h1)"
  by (auto simp: sendMessageToWasm_ptr_def crashed_error_def split: if_splits option.splits)

text \<open>
  Claim C6. When the module's entry point is reached and \<^verbatim>\<open>processMessage\<close> returns a
  status code other than 0, the \<^verbatim>\<open>try\<close> block throws the error whose text carries the
  code and, for the codes 1 to 6, the name of the enumerated reason; the call of
  \<^verbatim>\<open>sendMessageToWasm\<close> ends with an error, never with a response, and with exactly that
  error when the two releases of the \<^verbatim>\<open>finally\<close> block return. In the pointer-return
  revision, when \<^verbatim>\<open>processAndRespond\<close> returns 0, the call never ends with a response,
  and it ends with the error "WASM processAndRespond returned null, ..." when the release
  of the request buffer returns.
\<close>

theorem failed_invocation_is_thrown:
  assumes "\<not> wasmIsDead g" and "wasmModule g" and "wasmMemory g"
  shows
   "(buffers_reserved M h msg mp rp \<and>
     respond M (reserved h msg mp)
       (ProcessMessage mp (length (request_bytes msg)) rp responseBufferSize) = Returns resultCode \<and>
     resultCode \<noteq> 0 \<longrightarrow>
       try_block parse M h msg =
         Some (Inl (processMessage_failed resultCode), (Some mp, Some rp),
               reserved h msg mp @
                 [ProcessMessage mp (length (request_bytes msg)) rp responseBufferSize]) \<and>
       (\<exists>e h'. sendMessageToWasm parse M g h msg = Some (Inl e, g, h')) \<and>
       (respond M (reserved h msg mp @
            [ProcessMessage mp (length (request_bytes msg)) rp responseBufferSize])
          FreeMessageBuffer \<noteq> Trap \<and>
        respond M (reserved h msg mp @
            [ProcessMessage mp (length (request_bytes msg)) rp responseBufferSize,
             FreeMessageBuffer])
          FreeResponseBuffer \<noteq> Trap \<longrightarrow>
          sendMessageToWasm parse M g h msg =
            Some (Inl (processMessage_failed resultCode), g,
                  reserved h msg mp @
                    [ProcessMessage mp (length (request_bytes msg)) rp responseBufferSize,
                     FreeMessageBuffer, FreeResponseBuffer]))) \<and>
    (request_copied M h msg mp \<and>
     respond M (copied h msg mp) (ProcessAndRespond mp (length (request_bytes msg))) = Returns 0 \<longrightarrow>
       (\<forall>v g' h'. sendMessageToWasm_ptr parse M g h msg \<noteq> Some (Inr v, g', h')) \<and>
       (respond M (copied h msg mp @ [ProcessAndRespond mp (length (request_bytes msg))])
          FreeMessageBuffer \<noteq> Trap \<longrightarrow>
          sendMessageToWasm_ptr parse M g h msg =
            Some (Inl null_response_error, g,
                  copied h msg mp @
                    [ProcessAndRespond mp (length (request_bytes msg)), FreeMessageBuffer,
                     FreeWasmString 0]))) \<and>
    processMessage_failed resultCode =
      Error (''WASM processMessage failed with code '' @ decimal resultCode @ '': '' @
             error_message_of resultCode) \<and>
    error_message_of 1 = ''invalid_json'' \<and>
    error_message_of 2 = ''missing_message_type'' \<and>
    error_message_of 3 = ''unknown_message_type'' \<and>
    error_message_of 4 = ''invalid_state_for_message'' \<and>
    error_message_of 5 = ''response_buffer_too_small'' \<and>
    error_message_of 6 = ''internal_error''"
proof -
  let ?call = "ProcessMessage mp (length (request_bytes msg)) rp responseBufferSize"
  let ?h4 = "reserved h msg mp @ [?call]"
  have A: "try_block parse M h msg =
         Some (Inl (processMessage_failed resultCode), (Some mp, Some rp), ?h4) \<and>
       (\<exists>e h'. sendMessageToWasm parse M g h msg = Some (Inl e, g, h')) \<and>
       (respond M ?h4 FreeMessageBuffer \<noteq> Trap \<and>
        respond M (reserved h msg mp @ [?call, FreeMessageBuffer]) FreeResponseBuffer \<noteq> Trap \<longrightarrow>
          sendMessageToWasm parse M g h msg =
            Some (Inl (processMessage_failed resultCode), g,
                  reserved h msg mp @ [?call, FreeMessageBuffer, FreeResponseBuffer]))"
    if a: "buffers_reserved M h msg mp rp \<and>
       respond M (reserved h msg mp) ?call = Returns resultCode \<and> resultCode \<noteq> 0"
  proof -
    from a have a1: "buffers_reserved M h msg mp rp"
      and a2: "respond M (reserved h msg mp) ?call = Returns resultCode"
      and a3: "resultCode \<noteq> 0"
      by simp_all
    have t: "try_block parse M h msg =
         Some (Inl (processMessage_failed resultCode), (Some mp, Some rp), ?h4)"
      by (simp add: try_block_reserved [OF a1] invoke_failed [OF a2 a3])
    have ne: "processMessage_failed resultCode \<noteq> RuntimeError"
      by (simp add: processMessage_failed_def)
    from sendMessageToWasm_rejects [OF assms t ne]
    have r: "\<exists>e h'. sendMessageToWasm parse M g h msg = Some (Inl e, g, h')" .
    have "sendMessageToWasm parse M g h msg =
            Some (Inl (processMessage_failed resultCode), g,
                  reserved h msg mp @ [?call, FreeMessageBuffer, FreeResponseBuffer])"
      if f: "respond M ?h4 FreeMessageBuffer \<noteq> Trap \<and>
        respond M (reserved h msg mp @ [?call, FreeMessageBuffer]) FreeResponseBuffer \<noteq> Trap"
    proof -
      from f have "finally_block M (Some mp, Some rp) ?h4 =
          (None, ?h4 @ [FreeMessageBuffer, FreeResponseBuffer])"
        by (intro finally_block_both) simp_all
      with sendMessageToWasm_thrown [OF assms t ne] show ?thesis by simp
    qed
    with t r show ?thesis by blast
  qed
  let ?pcall = "ProcessAndRespond mp (length (request_bytes msg))"
  have B: "(\<forall>v g' h'. sendMessageToWasm_ptr parse M g h msg \<noteq> Some (Inr v, g', h')) \<and>
       (respond M (copied h msg mp @ [?pcall]) FreeMessageBuffer \<noteq> Trap \<longrightarrow>
          sendMessageToWasm_ptr parse M g h msg =
            Some (Inl null_response_error, g,
                  copied h msg mp @ [?pcall, FreeMessageBuffer, FreeWasmString 0]))"
    if b: "request_copied M h msg mp \<and> respond M (copied h msg mp) ?pcall = Returns 0"
  proof -
    from b have b1: "request_copied M h msg mp"
      and b2: "respond M (copied h msg mp) ?pcall = Returns 0"
      by simp_all
    have t: "try_block_ptr parse M h msg =
     (if respond M (copied h msg mp @ [?pcall]) FreeMessageBuffer = Trap
      then Some (Inl RuntimeError, (Some mp, Some 0), copied h msg mp @ [?pcall, FreeMessageBuffer])
      else Some (Inl null_response_error, (None, Some 0),
             copied h msg mp @ [?pcall, FreeMessageBuffer]))"
      by (rule try_block_ptr_null [OF b1 b2])
    have 1: "\<forall>v g' h'. sendMessageToWasm_ptr parse M g h msg \<noteq> Some (Inr v, g', h')"
    proof (intro allI notI)
      fix v g' h'
      assume "sendMessageToWasm_ptr parse M g h msg = Some (Inr v, g', h')"
      then have "\<exists>ptrs h1. try_block_ptr parse M h msg = Some (Inr v, ptrs, h1)"
        by (rule sendMessageToWasm_ptr_result)
      then obtain ptrs h1 where "try_block_ptr parse M h msg = Some (Inr v, ptrs, h1)"
        by (elim exE)
      with t show False by (simp split: if_splits)
    qed
    have 2: "sendMessageToWasm_ptr parse M g h msg =
            Some (Inl null_response_error, g,
                  copied h msg mp @ [?pcall, FreeMessageBuffer, FreeWasmString 0])"
      if "respond M (copied h msg mp @ [?pcall]) FreeMessageBuffer \<noteq> Trap"
      using that t assms
      by (simp add: sendMessageToWasm_ptr_def catch_block_def null_response_error_def
          finally_block_ptr_def)
    from 1 2 show ?thesis by blast
  qed
  have C: "processMessage_failed resultCode =
      Error (''WASM processMessage failed with code '' @ decimal resultCode @ '': '' @
             error_message_of resultCode)"
    by (simp add: processMessage_failed_def)
  from A B C error_message_of_enumerated show ?thesis by blast
qed

lemma sample_reserved:
  "mp \<noteq> 0 \<Longrightarrow> mp + 15 \<le> 32 + length response \<Longrightarrow> rp \<noteq> 0 \<Longrightarrow>
   buffers_reserved (sample_module mp rp status response) [] init_request mp rp"
  by (simp add: buffers_reserved_def request_copied_def copied_def bridge_eval)

theorem failed_invocation_is_thrown_witness:
  \<open>sendMessageToWasm JSON_parse_sample (sample_module 8 32 (Returns 4) []) ready []
     init_request =
     Some (Inl (Error ''WASM processMessage failed with code 4: invalid_state_for_message''),
       ready,
       [AllocateMessageBuffer 15, CopyToMemory 8 (request_bytes init_request),
        AllocateResponseBuffer 262144, ProcessMessage 8 15 32 262144,
        FreeMessageBuffer, FreeResponseBuffer]) \<and>
   sendMessageToWasm_ptr JSON_parse_sample (sample_module 8 32 (Returns 4) []) ready []
     init_request =
     Some (Inl (Error ''WASM processAndRespond returned null, indicating an internal error''),
       ready,
       [AllocateMessageBuffer 15, CopyToMemory 8 (request_bytes init_request),
        ProcessAndRespond 8 15, FreeMessageBuffer, FreeWasmString 0])\<close>
proof -
  have live: "\<not> wasmIsDead ready" "wasmModule ready" "wasmMemory ready"
    by (simp_all add: ready_def)
  have res: "buffers_reserved (sample_module 8 32 (Returns 4) []) [] init_request 8 32"
    by (rule sample_reserved) simp_all
  have len: "length (request_bytes init_request) = 15"
    by (simp add: bridge_eval)
  show ?thesis
    using failed_invocation_is_thrown [OF live, of "sample_module 8 32 (Returns 4) []" "[]"
        init_request 8 32 4 JSON_parse_sample] res len
    by (simp add: bridge_eval buffers_reserved_def reserved_def copied_def
        processMessage_failed_def null_response_error_def decimal.simps digit_char_def
        error_message_of_def errorMessages_def)
qed

section \<open>Responses that cannot be decoded\<close>

text \<open>
  Claim C5, as the code has it. \<open>decode_response\<close> returns a response only when the
  length prefix \<open>L\<close> is inside the memory, \<open>0 < L \<le> responseBufferSize - 4\<close>, the \<open>L\<close>
  bytes after the prefix are inside the memory, and \<^verbatim>\<open>JSON.parse\<close> accepts them. It throws
  "WASM returned invalid response length" when \<open>L\<close> is zero or exceeds the capacity minus
  the 4-byte prefix, and a \<^verbatim>\<open>SyntaxError\<close> when the bytes are not JSON. When decoding
  throws, the call of \<^verbatim>\<open>sendMessageToWasm\<close> ends with an error. Whether the parsed value
  has a \<^verbatim>\<open>status\<close> is not looked at.
\<close>

theorem undecodable_response_is_rejected:
  assumes "\<not> wasmIsDead g" and "wasmModule g" and "wasmMemory g"
  shows
   "(decode_response parse buffer p = Inr v \<longleftrightarrow>
       (\<exists>L. getUint32 buffer p = Some L \<and> 0 < L \<and> L \<le> responseBufferSize - 4 \<and>
            p + 4 + L \<le> length buffer \<and>
            parse (take L (drop (p + 4) buffer)) = Some v)) \<and>
    (getUint32 buffer p = Some L \<and> (L = 0 \<or> L > responseBufferSize - 4) \<longrightarrow>
       decode_response parse buffer p = Inl (invalid_response_length L)) \<and>
    (getUint32 buffer p = Some L \<and> 0 < L \<and> L \<le> responseBufferSize - 4 \<and>
     p + 4 + L \<le> length buffer \<and> parse (take L (drop (p + 4) buffer)) = None \<longrightarrow>
       decode_response parse buffer p = Inl SyntaxError) \<and>
    (buffers_reserved M h msg mp rp \<and>
     respond M (reserved h msg mp)
       (ProcessMessage mp (length (request_bytes msg)) rp responseBufferSize) = Returns 0 \<and>
     decode_response parse
       (memory_after M (reserved h msg mp @
          [ProcessMessage mp (length (request_bytes msg)) rp responseBufferSize])) rp = Inl e \<longrightarrow>
       try_block parse M h msg =
         Some (Inl e, (Some mp, Some rp),
               reserved h msg mp @
                 [ProcessMessage mp (length (request_bytes msg)) rp responseBufferSize]) \<and>
       (\<exists>e' h'. sendMessageToWasm parse M g h msg = Some (Inl e', g, h')))"
proof (intro conjI impI)
  show "decode_response parse buffer p = Inr v \<longleftrightarrow>
       (\<exists>L. getUint32 buffer p = Some L \<and> 0 < L \<and> L \<le> responseBufferSize - 4 \<and>
            p + 4 + L \<le> length buffer \<and>
            parse (take L (drop (p + 4) buffer)) = Some v)"
    by (rule decode_response_Inr_iff)
next
  assume "getUint32 buffer p = Some L \<and> (L = 0 \<or> L > responseBufferSize - 4)"
  then show "decode_response parse buffer p = Inl (invalid_response_length L)"
    by (auto simp: decode_response_def)
next
  assume "getUint32 buffer p = Some L \<and> 0 < L \<and> L \<le> responseBufferSize - 4 \<and>
     p + 4 + L \<le> length buffer \<and> parse (take L (drop (p + 4) buffer)) = None"
  then show "decode_response parse buffer p = Inl SyntaxError"
    by (simp add: decode_response_def)
next
  let ?call = "ProcessMessage mp (length (request_bytes msg)) rp responseBufferSize"
  assume a: "buffers_reserved M h msg mp rp \<and>
     respond M (reserved h msg mp) ?call = Returns 0 \<and>
     decode_response parse (memory_after M (reserved h msg mp @ [?call])) rp = Inl e"
  then have a1: "buffers_reserved M h msg mp rp"
    and a2: "respond M (reserved h msg mp) ?call = Returns 0"
    and a3: "decode_response parse (memory_after M (reserved h msg mp @ [?call])) rp = Inl e"
    by simp_all
  show t: "try_block parse M h msg =
      Some (Inl e, (Some mp, Some rp), reserved h msg mp @ [?call])"
    by (simp add: try_block_reserved [OF a1] invoke_undecodable [OF a2 a3])
  from a3 have "e \<noteq> RuntimeError" by (rule decode_response_is_error)
  with assms t show "\<exists>e' h'. sendMessageToWasm parse M g h msg = Some (Inl e', g, h')"
    by (rule sendMessageToWasm_rejects)
qed

theorem undecodable_response_is_rejected_witness:
  "decode_response JSON_parse_sample (replicate 32 0 @ [0, 0, 0, 0]) 32 =
     Inl (invalid_response_length 0) \<and>
   decode_response JSON_parse_sample (replicate 32 0 @ [0xFF, 0xFF, 0xFF, 0xFF]) 32 =
     Inl (invalid_response_length 4294967295) \<and>
   decode_response JSON_parse_sample (replicate 32 0 @ [4, 0, 0, 0, 0x6F, 0x6F, 0x70, 0x73]) 32 =
     Inl SyntaxError \<and>
   sendMessageToWasm JSON_parse_sample
     (sample_module 8 32 (Returns 0) [4, 0, 0, 0, 0x6F, 0x6F, 0x70, 0x73]) ready []
     init_request =
     Some (Inl SyntaxError, ready,
       [AllocateMessageBuffer 15, CopyToMemory 8 (request_bytes init_request),
        AllocateResponseBuffer 262144, ProcessMessage 8 15 32 262144,
        FreeMessageBuffer, FreeResponseBuffer])"
proof -
  have live: "\<not> wasmIsDead ready" "wasmModule ready" "wasmMemory ready"
    by (simp_all add: ready_def)
  have res: "buffers_reserved
      (sample_module 8 32 (Returns 0) [4, 0, 0, 0, 0x6F, 0x6F, 0x70, 0x73]) [] init_request 8 32"
    by (rule sample_reserved) simp_all
  have u1: "getUint32 (replicate 32 0 @ [0, 0, 0, 0]) 32 = Some 0"
    by (simp add: getUint32_def nth_append)
  have u2: "getUint32 (replicate 32 0 @ [0xFF, 0xFF, 0xFF, 0xFF]) 32 = Some 4294967295"
    by (simp add: getUint32_def nth_append)
  have d1: "decode_response JSON_parse_sample (replicate 32 0 @ [0, 0, 0, 0]) 32 =
     Inl (invalid_response_length 0)"
    using undecodable_response_is_rejected [OF live, of JSON_parse_sample
        "replicate 32 0 @ [0, 0, 0, 0]" 32 _ 0] u1
    by simp
  have d2: "decode_response JSON_parse_sample (replicate 32 0 @ [0xFF, 0xFF, 0xFF, 0xFF]) 32 =
     Inl (invalid_response_length 4294967295)"
    using undecodable_response_is_rejected [OF live, of JSON_parse_sample
        "replicate 32 0 @ [0xFF, 0xFF, 0xFF, 0xFF]" 32 _ 4294967295] u2
    by (simp add: responseBufferSize_def)
  have u3: "getUint32 (replicate 32 0 @ [4, 0, 0, 0, 0x6F, 0x6F, 0x70, 0x73]) 32 = Some 4"
    by (simp add: getUint32_def nth_append)
  have d3: "decode_response JSON_parse_sample
      (replicate 32 0 @ [4, 0, 0, 0, 0x6F, 0x6F, 0x70, 0x73]) 32 = Inl SyntaxError"
    using undecodable_response_is_rejected [OF live, of JSON_parse_sample
        "replicate 32 0 @ [4, 0, 0, 0, 0x6F, 0x6F, 0x70, 0x73]" 32 _ 4] u3
    by (simp add: responseBufferSize_def JSON_parse_sample_def)
  have s: "sendMessageToWasm JSON_parse_sample
     (sample_module 8 32 (Returns 0) [4, 0, 0, 0, 0x6F, 0x6F, 0x70, 0x73]) ready []
     init_request =
     Some (Inl SyntaxError, ready,
       [AllocateMessageBuffer 15, CopyToMemory 8 (request_bytes init_request),
        AllocateResponseBuffer 262144, ProcessMessage 8 15 32 262144,
        FreeMessageBuffer, FreeResponseBuffer])"
    by (simp add: bridge_eval)
  from d1 d2 d3 s show ?thesis by simp
qed

text \<open>
  The claim as stated fails for a response without \<^verbatim>\<open>status\<close>: the module answers
  \<^verbatim>\<open>{}\<close>, and the call returns the empty object as its response.
\<close>

theorem missing_status_counterexample:
  "sendMessageToWasm JSON_parse_sample
     (sample_module 8 32 (Returns 0) [2, 0, 0, 0, 0x7B, 0x7D]) ready [] init_request =
     Some (Inr (JObject []), ready,
       [AllocateMessageBuffer 15, CopyToMemory 8 (request_bytes init_request),
        AllocateResponseBuffer 262144, ProcessMessage 8 15 32 262144,
        FreeMessageBuffer, FreeResponseBuffer]) \<and>
   js_get (JObject [] :: int jsval) ''status'' = JUndefined"
  by (simp add: bridge_eval)

section \<open>Releasing the buffers\<close>

text \<open>
  Claim C4 at the inputs where the code departs from it: whenever
  \<^verbatim>\<open>allocateMessageBuffer\<close> returns 0, the call ends with an error and with a call of
  \<^verbatim>\<open>freeMessageBuffer\<close>, in both revisions of the bridge. The \<^verbatim>\<open>finally\<close> block tests
  \<^verbatim>\<open>messagePtr !== null\<close> and \<^verbatim>\<open>responsePtr !== null\<close>, and the address 0 of a failed
  reservation is not \<^verbatim>\<open>null\<close>: when \<^verbatim>\<open>allocateMessageBuffer\<close> returns 0,
  \<^verbatim>\<open>freeMessageBuffer\<close> is called all the same; when \<^verbatim>\<open>allocateResponseBuffer\<close> returns
  0, \<^verbatim>\<open>freeResponseBuffer\<close> is called; and in the pointer-return revision a response
  address of 0 is handed to \<^verbatim>\<open>freeWasmString\<close>.
\<close>

theorem release_after_failed_reserve:
  assumes "\<not> wasmIsDead g" and "wasmModule g" and "wasmMemory g"
    and "respond M h (AllocateMessageBuffer (length (request_bytes msg))) = Returns 0"
  shows "(\<exists>e. sendMessageToWasm parse M g h msg =
            Some (Inl e, g,
                  h @ [AllocateMessageBuffer (length (request_bytes msg)), FreeMessageBuffer])) \<and>
    sendMessageToWasm_ptr parse M g h msg =
      Some (Inl (Error ''Failed to allocate message memory in WASM''), g,
            h @ [AllocateMessageBuffer (length (request_bytes msg)), FreeMessageBuffer])"
proof
  let ?h1 = "h @ [AllocateMessageBuffer (length (request_bytes msg))]"
  from assms(4) have t: "try_block parse M h msg =
      Some (Inl (Error ''Failed to allocate message memory in WASM''), (Some 0, None), ?h1)"
    by (simp add: try_block_def Let_def request_bytes_def)
  have f: "finally_block M (Some 0, None) ?h1 =
      (if respond M ?h1 FreeMessageBuffer = Trap then Some RuntimeError else None,
       ?h1 @ [FreeMessageBuffer])"
    by (simp add: finally_block_def)
  from sendMessageToWasm_thrown [OF assms(1-3) t] f
  show "\<exists>e. sendMessageToWasm parse M g h msg =
            Some (Inl e, g,
                  h @ [AllocateMessageBuffer (length (request_bytes msg)), FreeMessageBuffer])"
    by simp
  from assms(4) have "try_block_ptr parse M h msg =
      Some (Inl (Error ''Failed to allocate message memory in WASM''), (Some 0, None), ?h1)"
    by (simp add: try_block_ptr_def Let_def request_bytes_def)
  with assms(1-3) show "sendMessageToWasm_ptr parse M g h msg =
      Some (Inl (Error ''Failed to allocate message memory in WASM''), g,
            h @ [AllocateMessageBuffer (length (request_bytes msg)), FreeMessageBuffer])"
    by (simp add: sendMessageToWasm_ptr_def catch_block_def finally_block_ptr_def)
qed

text \<open>
  The three failed reservations at sample modules: a request buffer at 0, a response
  buffer at 0, a response string at 0.
\<close>

theorem release_after_failed_reserve_witness:
  "sendMessageToWasm JSON_parse_sample (sample_module 0 32 (Returns 0) []) ready []
     init_request =
     Some (Inl (Error ''Failed to allocate message memory in WASM''), ready,
       [AllocateMessageBuffer 15, FreeMessageBuffer]) \<and>
   sendMessageToWasm_ptr JSON_parse_sample (sample_module 0 32 (Returns 0) []) ready []
     init_request =
     Some (Inl (Error ''Failed to allocate message memory in WASM''), ready,
       [AllocateMessageBuffer 15, FreeMessageBuffer]) \<and>
   sendMessageToWasm JSON_parse_sample (sample_module 8 0 (Returns 0) []) ready []
     init_request =
     Some (Inl (Error ''Failed to allocate response memory in WASM''), ready,
       [AllocateMessageBuffer 15, CopyToMemory 8 (request_bytes init_request),
        AllocateResponseBuffer 262144, FreeMessageBuffer, FreeResponseBuffer]) \<and>
   sendMessageToWasm_ptr JSON_parse_sample (sample_module 8 32 (Returns 0) []) ready []
     init_request =
     Some (Inl (Error ''WASM processAndRespond returned null, indicating an internal error''),
       ready,
       [AllocateMessageBuffer 15, CopyToMemory 8 (request_bytes init_request),
        ProcessAndRespond 8 15, FreeMessageBuffer, FreeWasmString 0])"
proof -
  have live: "\<not> wasmIsDead ready" "wasmModule ready" "wasmMemory ready"
    by (simp_all add: ready_def)
  have a: "respond (sample_module 0 32 (Returns 0) []) []
      (AllocateMessageBuffer (length (request_bytes init_request))) = Returns 0"
    by (simp add: sample_module_def)
  from release_after_failed_reserve [OF live a, of JSON_parse_sample]
  have "sendMessageToWasm_ptr JSON_parse_sample (sample_module 0 32 (Returns 0) []) ready []
     init_request =
     Some (Inl (Error ''Failed to allocate message memory in WASM''), ready,
       [AllocateMessageBuffer 15, FreeMessageBuffer])"
    by (simp add: bridge_eval)
  then show ?thesis by (simp add: bridge_eval)
qed

text \<open>
  When both reservations succeed and the releases do not trap, each release is called
  exactly once, whatever happens in between: a trap, a status code, a response that
  cannot be decoded, or a response.
\<close>

fun is_release :: "action \<Rightarrow> bool" where
  "is_release FreeMessageBuffer = True"
| "is_release FreeResponseBuffer = True"
| "is_release a = False"

lemma fetch_debug_log_releases:
  "fetch_debug_log M h = Some h' \<Longrightarrow> filter is_release h' = filter is_release h"
  by (auto simp: fetch_debug_log_def split: if_splits outcome.splits option.splits)

lemma drain_debug_log_releases:
  "drain_debug_log M h = Some (e, h') \<Longrightarrow> filter is_release h' = filter is_release h"
  by (auto simp: drain_debug_log_def split: if_splits outcome.splits option.splits
      dest: fetch_debug_log_releases)

lemma invoke_and_decode_releases:
  "invoke_and_decode parse M h mp n rp = Some (r, ptrs, h') \<Longrightarrow>
   filter is_release h' = filter is_release h \<and> ptrs = (Some mp, Some rp)"
  by (auto simp: invoke_and_decode_def Let_def
      split: if_splits outcome.splits option.splits sum.splits
      dest: drain_debug_log_releases)

lemma catch_block_releases:
  "catch_block M g h e = Some (g', h') \<Longrightarrow> filter is_release h' = filter is_release h"
  by (auto simp: catch_block_def split: if_splits option.splits dest: fetch_debug_log_releases)

lemma releases_once_when_reserved:
  assumes live: "\<not> wasmIsDead g" "wasmModule g" "wasmMemory g"
    and res: "buffers_reserved M h msg mp rp"
    and send: "sendMessageToWasm parse M g h msg = Some (r, g', h')"
    and free: "\<And>k. respond M k FreeMessageBuffer \<noteq> Trap"
      "\<And>k. respond M k FreeResponseBuffer \<noteq> Trap"
  shows "filter is_release h' = filter is_release h @ [FreeMessageBuffer, FreeResponseBuffer]"
proof -
  from live send obtain r1 ptrs h1 g2 h2 e3 where
    t: "try_block parse M h msg = Some (r1, ptrs, h1)"
    and c: "(case r1 of Inl e \<Rightarrow> catch_block M g h1 e | Inr v \<Rightarrow> Some (g, h1)) = Some (g2, h2)"
    and f: "finally_block M ptrs h2 = (e3, h')"
    by (auto simp: sendMessageToWasm_def split: option.splits prod.splits)
  from t res have "invoke_and_decode parse M (reserved h msg mp) mp
      (length (request_bytes msg)) rp = Some (r1, ptrs, h1)"
    by (simp add: try_block_reserved)
  then have 1: "filter is_release h1 = filter is_release (reserved h msg mp)"
    and p: "ptrs = (Some mp, Some rp)"
    by (auto dest: invoke_and_decode_releases)
  have 0: "filter is_release (reserved h msg mp) = filter is_release h"
    by (simp add: reserved_def copied_def)
  from c have 2: "filter is_release h2 = filter is_release h1"
    by (cases r1) (auto dest: catch_block_releases)
  from free have "finally_block M (Some mp, Some rp) h2 =
      (None, h2 @ [FreeMessageBuffer, FreeResponseBuffer])"
    by (intro finally_block_both)
  with f p have "h' = h2 @ [FreeMessageBuffer, FreeResponseBuffer]" by simp
  with 0 1 2 show ?thesis by simp
qed

section \<open>A dead module is never called again\<close>

text \<open>
  \<open>crashed_only s s'\<close>: from \<open>s\<close> to \<open>s'\<close> the flag stays set, no export is called, and
  every outcome that is new is the error of the dead bridge.
\<close>

definition crashed_only :: "'r system \<Rightarrow> 'r system \<Rightarrow> bool" where
  "crashed_only s s' =
     (wasmIsDead (globals s') \<and>
      filter is_export_call (history s') = filter is_export_call (history s) \<and>
      set (awaiting s') \<union> set (delivered s') \<subseteq>
        set (awaiting s) \<union> set (delivered s) \<union> {x. snd x = Inl crashed_error})"

lemma drain_loop_dead:
  assumes "wasmIsDead (globals s)"
  shows "\<exists>s'. drain_loop parse M s = Some s' \<and> crashed_only s s'"
proof (cases "messageQueue (globals s)")
  case Nil
  with assms show ?thesis by (auto simp: drain_loop_def crashed_only_def)
next
  case (Cons q rest)
  with assms show ?thesis
    by (auto simp: drain_loop_def crashed_only_def sendMessageToWasm_dead)
qed

lemma crashed_only_trans:
  "crashed_only s s1 \<Longrightarrow> crashed_only s1 s2 \<Longrightarrow> crashed_only s s2"
  by (auto simp: crashed_only_def)

lemma step_dead:
  assumes "wasmIsDead (globals s)" and "ev \<noteq> Reset"
  shows "\<exists>s'. step parse M ev s = Some s' \<and> crashed_only s s'"
proof (cases ev)
  case (Submit msg)
  let ?s1 = "s\<lparr>promises := Suc (promises s),
          globals := (globals s)\<lparr>messageQueue :=
            messageQueue (globals s) @ [\<lparr>message = msg, promise = promises s\<rparr>]\<rparr>\<rparr>"
  let ?s2 = "?s1\<lparr>globals := (globals ?s1)\<lparr>messageInProgress := True\<rparr>\<rparr>"
  from assms(1) have c1: "crashed_only s ?s1" by (auto simp: crashed_only_def)
  show ?thesis
  proof (cases "messageInProgress (globals s)")
    case True
    with Submit c1 show ?thesis
      by (simp add: sendMessageQueued_def processMessageQueue_def)
  next
    case False
    from assms(1) have "wasmIsDead (globals ?s2)" by simp
    then obtain s' where d: "drain_loop parse M ?s2 = Some s'" and c: "crashed_only ?s2 s'"
      using drain_loop_dead by blast
    from assms(1) have "crashed_only s ?s2" by (auto simp: crashed_only_def)
    with c have "crashed_only s s'" by (rule crashed_only_trans [rotated])
    with d Submit False show ?thesis
      by (simp add: sendMessageQueued_def processMessageQueue_def)
  qed
next
  case (Resume k)
  show ?thesis
  proof (cases "k < length (awaiting s)")
    case False
    with Resume assms(1) show ?thesis by (auto simp: resume_def crashed_only_def)
  next
    case True
    let ?s1 = "s\<lparr>awaiting := take k (awaiting s) @ drop (Suc k) (awaiting s),
             history := history s @ [Settled (fst (awaiting s ! k))],
             delivered := delivered s @ [awaiting s ! k]\<rparr>"
    have "set (take k (awaiting s)) \<subseteq> set (awaiting s)"
      "set (drop (Suc k) (awaiting s)) \<subseteq> set (awaiting s)"
      by (rule set_take_subset, rule set_drop_subset)
    moreover from True have "awaiting s ! k \<in> set (awaiting s)" by simp
    ultimately have c1: "crashed_only s ?s1"
      using assms(1) by (auto simp: crashed_only_def)
    from assms(1) have "wasmIsDead (globals ?s1)" by simp
    then obtain s' where d: "drain_loop parse M ?s1 = Some s'" and c: "crashed_only ?s1 s'"
      using drain_loop_dead by blast
    from c1 c have "crashed_only s s'" by (rule crashed_only_trans)
    with d Resume True show ?thesis by (simp add: resume_def)
  qed
next
  case Reset
  with assms(2) show ?thesis by simp
qed

lemma run_dead:
  "wasmIsDead (globals s) \<Longrightarrow> Reset \<notin> set evs \<Longrightarrow>
   \<exists>s'. run parse M evs s = Some s' \<and> crashed_only s s'"
proof (induction evs arbitrary: s)
  case Nil
  then show ?case by (auto simp: crashed_only_def)
next
  case (Cons ev evs)
  from Cons.prems obtain s1 where 1: "step parse M ev s = Some s1" and c1: "crashed_only s s1"
    using step_dead [of s ev] by auto
  from c1 have "wasmIsDead (globals s1)" by (simp add: crashed_only_def)
  with Cons.prems(2) obtain s' where 2: "run parse M evs s1 = Some s'" and c2: "crashed_only s1 s'"
    using Cons.IH [of s1] by auto
  from c1 c2 have "crashed_only s s'" by (rule crashed_only_trans)
  with 1 2 show ?case by simp
qed

text \<open>
  Claim C1. Once \<^verbatim>\<open>wasmIsDead\<close> is set, \<^verbatim>\<open>sendMessageToWasm\<close> throws the error "WASM
  module has crashed and is in an unrecoverable state ..." at once: no export is called
  and nothing changes. And in every run of submissions and resumptions from a state with
  the flag set (\<^verbatim>\<open>resetWasm\<close> is not called), every job returns, the flag stays set, the
  calls of exports in the trace are those that were there before, and every promise that
  waits for its outcome or has been settled, other than those that already did, has that
  error as its outcome.
\<close>

theorem dead_bridge_fails_fast:
  assumes "wasmIsDead (globals s)" and "Reset \<notin> set evs"
  shows "sendMessageToWasm parse M (globals s) h msg = Some (Inl crashed_error, globals s, h) \<and>
    (\<exists>s'. run parse M evs s = Some s' \<and> wasmIsDead (globals s') \<and>
       filter is_export_call (history s') = filter is_export_call (history s) \<and>
       set (awaiting s') \<union> set (delivered s') \<subseteq>
         set (awaiting s) \<union> set (delivered s) \<union> {x. snd x = Inl crashed_error})"
proof -
  from assms obtain s' where "run parse M evs s = Some s'" "crashed_only s s'"
    using run_dead by blast
  then have "\<exists>s'. run parse M evs s = Some s' \<and> wasmIsDead (globals s') \<and>
       filter is_export_call (history s') = filter is_export_call (history s) \<and>
       set (awaiting s') \<union> set (delivered s') \<subseteq>
         set (awaiting s) \<union> set (delivered s) \<union> {x. snd x = Inl crashed_error}"
    unfolding crashed_only_def by blast
  with assms(1) show ?thesis by (simp add: sendMessageToWasm_dead)
qed

text \<open>
  The module traps in \<^verbatim>\<open>processMessage\<close>: the first request is rejected with the
  \<^verbatim>\<open>RuntimeError\<close> and the flag is set; the second is rejected with the error above, and
  the trace gains no call.
\<close>

definition crashed_state :: "int jsval system" where
  "crashed_state =
     \<lparr>globals = ready\<lparr>wasmIsDead := True\<rparr>, awaiting = [], promises = 1,
      history = [Dequeued 0, AllocateMessageBuffer 15,
        CopyToMemory 8 (request_bytes init_request), AllocateResponseBuffer 262144,
        ProcessMessage 8 15 32 262144, FreeMessageBuffer, FreeResponseBuffer, Settled 0],
      delivered = [(0, Inl RuntimeError)]\<rparr>"

theorem dead_bridge_fails_fast_witness:
  "run JSON_parse_sample (sample_module 8 32 Trap []) [Submit init_request, Resume 0]
     (start ready) = Some crashed_state \<and>
   wasmIsDead (globals crashed_state) \<and>
   run JSON_parse_sample (sample_module 8 32 Trap []) [Submit init_request, Resume 0]
     crashed_state =
     Some (crashed_state\<lparr>promises := 2,
       history := history crashed_state @ [Dequeued 1, Settled 1],
       delivered := [(0, Inl RuntimeError), (1, Inl crashed_error)]\<rparr>)"
  using dead_bridge_fails_fast [of crashed_state "[Submit init_request, Resume 0]"
      JSON_parse_sample "sample_module 8 32 Trap []" "[]" init_request]
  by (simp add: crashed_state_def bridge_eval)

section \<open>One drain loop, first in, first out\<close>

text \<open>
  The runs considered here are made of submissions and resumptions; \<^verbatim>\<open>resetWasm\<close>, which
  the application never calls, is treated in the last section. \<open>settled_prefix n\<close> is the
  trace of \<open>n\<close> requests served one after the other, reduced to its queue events.
  \<open>fifo_inv\<close> holds between jobs, \<open>loop_inv\<close> at the test of the \<^verbatim>\<open>while\<close> loop.
\<close>

lemma Cons_eq_upt: "(x # xs = [a..<b]) = (a < b \<and> x = a \<and> xs = [Suc a..<b])"
  using upt_eq_Cons_conv [of a b x xs] by auto

lemma Nil_eq_upt: "([] = [a..<b]) = (b \<le> a)"
  using upt_eq_Nil_conv [of a b] by (auto simp del: upt_eq_Nil_conv)

definition settled_prefix :: "nat \<Rightarrow> action list" where
  "settled_prefix n = concat (map (\<lambda>p. [Dequeued p, Settled p]) [0..<n])"

lemma settled_prefix_Suc: "settled_prefix (Suc n) = settled_prefix n @ [Dequeued n, Settled n]"
  by (simp add: settled_prefix_def)

definition fifo_inv :: "'r system \<Rightarrow> bool" where
  "fifo_inv s =
     (let n = length (delivered s) in
        map fst (delivered s) = [0..<n] \<and>
        filter is_marker (history s) = settled_prefix n @ map (Dequeued \<circ> fst) (awaiting s) \<and>
        map fst (awaiting s) = (if messageInProgress (globals s) then [n] else []) \<and>
        map promise (messageQueue (globals s)) = [n + length (awaiting s)..<promises s] \<and>
        n + length (awaiting s) \<le> promises s \<and>
        (messageInProgress (globals s) \<or> messageQueue (globals s) = []))"

definition loop_inv :: "'r system \<Rightarrow> bool" where
  "loop_inv s =
     (let n = length (delivered s) in
        map fst (delivered s) = [0..<n] \<and>
        filter is_marker (history s) = settled_prefix n \<and>
        awaiting s = [] \<and>
        messageInProgress (globals s) \<and>
        map promise (messageQueue (globals s)) = [n..<promises s] \<and>
        n \<le> promises s)"

lemma drain_loop_fifo:
  assumes "loop_inv s" and "drain_loop parse M s = Some s'"
  shows "fifo_inv s'"
proof (cases "messageQueue (globals s)")
  case Nil
  with assms show ?thesis
    by (auto simp: drain_loop_def loop_inv_def fifo_inv_def Let_def)
next
  case (Cons q rest)
  with assms(2) obtain r g h where
    send: "sendMessageToWasm parse M ((globals s)\<lparr>messageQueue := rest\<rparr>)
             (history s @ [Dequeued (promise q)]) (message q) = Some (r, g, h)"
    and s': "s' = s\<lparr>globals := g, history := h, awaiting := awaiting s @ [(promise q, r)]\<rparr>"
    by (auto simp: drain_loop_def split: option.splits)
  from sendMessageToWasm_markers [OF send]
  have h: "filter is_marker h = filter is_marker (history s) @ [Dequeued (promise q)]"
    and g: "messageQueue g = rest" "messageInProgress g = messageInProgress (globals s)"
    by auto
  from assms(1) Cons have q: "promise q = length (delivered s)"
    and rest: "map promise rest = [Suc (length (delivered s))..<promises s]"
    and lt: "length (delivered s) < promises s"
    by (auto simp: loop_inv_def Let_def Cons_eq_upt)
  from assms(1) h g q rest lt show ?thesis
    by (auto simp: s' loop_inv_def fifo_inv_def Let_def)
qed

lemma fifo_inv_start: "fifo_inv (start g)"
  by (simp add: fifo_inv_def start_def settled_prefix_def)

lemma sendMessageQueued_fifo:
  assumes "fifo_inv s" and "sendMessageQueued parse M msg s = Some s'"
  shows "fifo_inv s'"
proof (cases "messageInProgress (globals s)")
  case True
  with assms(2) have "s' = s\<lparr>promises := Suc (promises s),
          globals := (globals s)\<lparr>messageQueue :=
            messageQueue (globals s) @ [\<lparr>message = msg, promise = promises s\<rparr>]\<rparr>\<rparr>"
    by (simp add: sendMessageQueued_def processMessageQueue_def)
  with assms(1) True show ?thesis
    by (auto simp: fifo_inv_def Let_def)
next
  case False
  with assms(1) have e: "messageQueue (globals s) = []" "awaiting s = []"
    "length (delivered s) = promises s"
    by (auto simp: fifo_inv_def Let_def Nil_eq_upt)
  let ?s1 = "s\<lparr>promises := Suc (promises s),
          globals := (globals s)\<lparr>messageQueue :=
            messageQueue (globals s) @ [\<lparr>message = msg, promise = promises s\<rparr>]\<rparr>\<rparr>"
  let ?s2 = "?s1\<lparr>globals := (globals ?s1)\<lparr>messageInProgress := True\<rparr>\<rparr>"
  from assms(2) False e have d: "drain_loop parse M ?s2 = Some s'"
    by (simp add: sendMessageQueued_def processMessageQueue_def)
  from assms(1) False e have "loop_inv ?s2"
    by (auto simp: fifo_inv_def loop_inv_def Let_def)
  then show ?thesis using d by (rule drain_loop_fifo)
qed

lemma resume_fifo:
  assumes "fifo_inv s" and "resume parse M k s = Some s'"
  shows "fifo_inv s'"
proof (cases "k < length (awaiting s)")
  case False
  with assms show ?thesis by (simp add: resume_def)
next
  case True
  with assms(1) obtain r where a: "awaiting s = [(length (delivered s), r)]" and k: "k = 0"
    and p: "messageInProgress (globals s)"
    by (cases "awaiting s") (auto simp: fifo_inv_def Let_def split: if_splits)
  let ?s1 = "s\<lparr>awaiting := take k (awaiting s) @ drop (Suc k) (awaiting s),
             history := history s @ [Settled (fst (awaiting s ! k))],
             delivered := delivered s @ [awaiting s ! k]\<rparr>"
  from assms(2) True have d: "drain_loop parse M ?s1 = Some s'"
    by (simp add: resume_def)
  from assms(1) a k p have "loop_inv ?s1"
    by (auto simp: fifo_inv_def loop_inv_def Let_def settled_prefix_Suc)
  then show ?thesis using d by (rule drain_loop_fifo)
qed

lemma run_fifo:
  "fifo_inv s \<Longrightarrow> Reset \<notin> set evs \<Longrightarrow> run parse M evs s = Some s' \<Longrightarrow> fifo_inv s'"
proof (induction evs arbitrary: s)
  case Nil
  then show ?case by simp
next
  case (Cons ev evs)
  from Cons.prems(3) obtain s1 where 1: "step parse M ev s = Some s1"
    and 2: "run parse M evs s1 = Some s'"
    by (auto split: option.splits)
  from Cons.prems(2) have "ev \<noteq> Reset" "Reset \<notin> set evs" by auto
  with 1 Cons.prems(1) have "fifo_inv s1"
    by (cases ev) (auto dest: sendMessageQueued_fifo resume_fifo)
  then show ?case using \<open>Reset \<notin> set evs\<close> 2 by (rule Cons.IH)
qed

text \<open>
  \<open>requests evs\<close> are the requests submitted in a run, in order: the \<open>p\<close>-th of them is
  the request of promise \<open>p\<close>. \<open>answers parse M msg r\<close>: \<open>r\<close> is an outcome of
  \<^verbatim>\<open>sendMessageToWasm\<close> for the request \<open>msg\<close>.
\<close>

fun requests :: "event list \<Rightarrow> WasmMessage list" where
  "requests [] = []"
| "requests (Submit msg # evs) = msg # requests evs"
| "requests (ev # evs) = requests evs"

lemma requests_append: "requests (xs @ ys) = requests xs @ requests ys"
  by (induction xs rule: requests.induct) simp_all

definition answers ::
  "(byte list \<Rightarrow> 'r option) \<Rightarrow> wasm_module \<Rightarrow> WasmMessage \<Rightarrow> js_error + 'r \<Rightarrow> bool" where
  "answers parse M msg r =
     (\<exists>g h g' h'. sendMessageToWasm parse M g h msg = Some (r, g', h'))"

definition answered ::
  "(byte list \<Rightarrow> 'r option) \<Rightarrow> wasm_module \<Rightarrow> WasmMessage list \<Rightarrow> nat \<times> (js_error + 'r) \<Rightarrow> bool" where
  "answered parse M msgs x = (fst x < length msgs \<and> answers parse M (msgs ! fst x) (snd x))"

definition assoc_inv ::
  "(byte list \<Rightarrow> 'r option) \<Rightarrow> wasm_module \<Rightarrow> WasmMessage list \<Rightarrow> 'r system \<Rightarrow> bool" where
  "assoc_inv parse M msgs s =
     (promises s = length msgs \<and>
      (\<forall>q\<in>set (messageQueue (globals s)). promise q < length msgs \<and> message q = msgs ! promise q) \<and>
      (\<forall>x\<in>set (awaiting s). answered parse M msgs x) \<and>
      (\<forall>x\<in>set (delivered s). answered parse M msgs x))"

lemma drain_loop_assoc:
  assumes "assoc_inv parse M msgs s" and "drain_loop parse M s = Some s'"
  shows "assoc_inv parse M msgs s'"
proof (cases "messageQueue (globals s)")
  case Nil
  with assms show ?thesis by (auto simp: drain_loop_def assoc_inv_def)
next
  case (Cons q rest)
  with assms(2) obtain r g h where
    send: "sendMessageToWasm parse M ((globals s)\<lparr>messageQueue := rest\<rparr>)
             (history s @ [Dequeued (promise q)]) (message q) = Some (r, g, h)"
    and s': "s' = s\<lparr>globals := g, history := h, awaiting := awaiting s @ [(promise q, r)]\<rparr>"
    by (auto simp: drain_loop_def split: option.splits)
  from sendMessageToWasm_markers [OF send] have g: "messageQueue g = rest" by auto
  from send have a: "answers parse M (message q) r" unfolding answers_def by blast
  from assms(1) Cons have q: "promise q < length msgs" "message q = msgs ! promise q"
    by (simp_all add: assoc_inv_def)
  with a have "answered parse M msgs (promise q, r)" by (simp add: answered_def)
  with assms(1) Cons g show ?thesis by (simp add: s' assoc_inv_def)
qed

lemma answered_mono: "answered parse M msgs x \<Longrightarrow> answered parse M (msgs @ [m]) x"
  by (simp add: answered_def nth_append)

lemma step_assoc:
  assumes "assoc_inv parse M msgs s" and "step parse M ev s = Some s'"
  shows "assoc_inv parse M (msgs @ requests [ev]) s'"
proof (cases ev)
  case (Submit msg)
  let ?s1 = "s\<lparr>promises := Suc (promises s),
          globals := (globals s)\<lparr>messageQueue :=
            messageQueue (globals s) @ [\<lparr>message = msg, promise = promises s\<rparr>]\<rparr>\<rparr>"
  let ?s2 = "?s1\<lparr>globals := (globals ?s1)\<lparr>messageInProgress := True\<rparr>\<rparr>"
  from assms(1) have i1: "assoc_inv parse M (msgs @ [msg]) ?s1"
    by (auto simp: assoc_inv_def nth_append answered_mono)
  then have i2: "assoc_inv parse M (msgs @ [msg]) ?s2" by (simp add: assoc_inv_def)
  show ?thesis
  proof (cases "messageInProgress (globals s)")
    case True
    with assms(2) Submit have "s' = ?s1"
      by (simp add: sendMessageQueued_def processMessageQueue_def)
    with i1 Submit show ?thesis by simp
  next
    case False
    with assms(2) Submit have "drain_loop parse M ?s2 = Some s'"
      by (simp add: sendMessageQueued_def processMessageQueue_def)
    with i2 have "assoc_inv parse M (msgs @ [msg]) s'" by (rule drain_loop_assoc)
    with Submit show ?thesis by simp
  qed
next
  case (Resume k)
  show ?thesis
  proof (cases "k < length (awaiting s)")
    case False
    with assms Resume show ?thesis by (simp add: resume_def)
  next
    case True
    let ?s1 = "s\<lparr>awaiting := take k (awaiting s) @ drop (Suc k) (awaiting s),
             history := history s @ [Settled (fst (awaiting s ! k))],
             delivered := delivered s @ [awaiting s ! k]\<rparr>"
    from True have "awaiting s ! k \<in> set (awaiting s)" by simp
    with assms(1) have "assoc_inv parse M msgs ?s1"
      by (auto simp: assoc_inv_def dest: in_set_takeD in_set_dropD)
    moreover from assms(2) Resume True have "drain_loop parse M ?s1 = Some s'"
      by (simp add: resume_def)
    ultimately have "assoc_inv parse M msgs s'" by (rule drain_loop_assoc)
    with Resume show ?thesis by simp
  qed
next
  case Reset
  with assms show ?thesis by (auto simp: assoc_inv_def resetWasm_def)
qed

lemma run_assoc:
  "assoc_inv parse M msgs s \<Longrightarrow> run parse M evs s = Some s' \<Longrightarrow>
   assoc_inv parse M (msgs @ requests evs) s'"
proof (induction evs arbitrary: s msgs)
  case Nil
  then show ?case by simp
next
  case (Cons ev evs)
  from Cons.prems(2) obtain s1 where 1: "step parse M ev s = Some s1"
    and 2: "run parse M evs s1 = Some s'"
    by (auto split: option.splits)
  from Cons.prems(1) 1 have "assoc_inv parse M (msgs @ requests [ev]) s1" by (rule step_assoc)
  then have "assoc_inv parse M ((msgs @ requests [ev]) @ requests evs) s'"
    using 2 by (rule Cons.IH)
  moreover have "requests (ev # evs) = requests [ev] @ requests evs"
    using requests_append [of "[ev]" evs] by simp
  ultimately show ?case by simp
qed

lemma assoc_inv_start: "assoc_inv parse M [] (start g)"
  by (simp add: assoc_inv_def start_def)

text \<open>
  Claim C2. In every run of submissions and resumptions that starts with nothing pending,
  the promises are settled in the order in which their requests were submitted (the
  \<open>k\<close>-th promise settled is the promise of the \<open>k\<close>-th request), each with an outcome of
  \<^verbatim>\<open>sendMessageToWasm\<close> for its own request; and the queue events of the trace are
  \<open>Dequeued 0, Settled 0, Dequeued 1, Settled 1, ...\<close>, followed by \<open>Dequeued n\<close> for the
  one request that may be waiting for its outcome: a request is taken off the queue, and
  the module called for it, only after the promise of the request before it has been
  settled.
\<close>

theorem responses_in_submission_order:
  assumes "Reset \<notin> set evs" and "run parse M evs (start g) = Some s"
  shows "map fst (delivered s) = [0..<length (delivered s)] \<and>
    (\<forall>x\<in>set (delivered s).
       fst x < length (requests evs) \<and> answers parse M (requests evs ! fst x) (snd x)) \<and>
    filter is_marker (history s) =
      settled_prefix (length (delivered s)) @ map (Dequeued \<circ> fst) (awaiting s) \<and>
    map fst (awaiting s) =
      (if messageInProgress (globals s) then [length (delivered s)] else [])"
proof -
  from fifo_inv_start assms have f: "fifo_inv s" by (rule run_fifo)
  from assoc_inv_start assms(2) have "assoc_inv parse M ([] @ requests evs) s" by (rule run_assoc)
  then have "\<forall>x\<in>set (delivered s).
       fst x < length (requests evs) \<and> answers parse M (requests evs ! fst x) (snd x)"
    by (simp add: assoc_inv_def answered_def)
  with f show ?thesis by (simp add: fifo_inv_def Let_def)
qed

text \<open>
  Two requests are submitted before the first is settled: the second waits in the queue,
  and is served after the first has been settled.
\<close>

definition two_requests_served :: "int jsval system" where
  "two_requests_served =
     \<lparr>globals = ready, awaiting = [], promises = 2,
      history = [Dequeued 0, AllocateMessageBuffer 15,
        CopyToMemory 8 (request_bytes init_request), AllocateResponseBuffer 262144,
        ProcessMessage 8 15 32 262144, FreeMessageBuffer, FreeResponseBuffer, Settled 0,
        Dequeued 1, AllocateMessageBuffer 15,
        CopyToMemory 8 (request_bytes init_request), AllocateResponseBuffer 262144,
        ProcessMessage 8 15 32 262144, FreeMessageBuffer, FreeResponseBuffer, Settled 1],
      delivered = [(0, Inr (JObject [])), (1, Inr (JObject []))]\<rparr>"

theorem responses_in_submission_order_witness:
  "Reset \<notin> set [Submit init_request, Submit init_request, Resume 0, Resume 0] \<and>
   run JSON_parse_sample (sample_module 8 32 (Returns 0) [2, 0, 0, 0, 0x7B, 0x7D])
     [Submit init_request, Submit init_request, Resume 0, Resume 0] (start ready) =
     Some two_requests_served \<and>
   map fst (delivered two_requests_served) = [0, 1] \<and>
   filter is_marker (history two_requests_served) =
     [Dequeued 0, Settled 0, Dequeued 1, Settled 1]"
proof -
  have r: "run JSON_parse_sample (sample_module 8 32 (Returns 0) [2, 0, 0, 0, 0x7B, 0x7D])
     [Submit init_request, Submit init_request, Resume 0, Resume 0] (start ready) =
     Some two_requests_served"
    by (simp add: two_requests_served_def bridge_eval)
  have n: "Reset \<notin> set [Submit init_request, Submit init_request, Resume 0, Resume 0]"
    by simp
  from responses_in_submission_order [OF n r]
  have "map fst (delivered two_requests_served) = [0..<length (delivered two_requests_served)]"
    and "filter is_marker (history two_requests_served) =
      settled_prefix (length (delivered two_requests_served)) @
      map (Dequeued \<circ> fst) (awaiting two_requests_served)"
    by simp_all
  then have "map fst (delivered two_requests_served) = [0, 1]"
    and "filter is_marker (history two_requests_served) =
     [Dequeued 0, Settled 0, Dequeued 1, Settled 1]"
    by (simp_all add: two_requests_served_def settled_prefix_def upt_rec)
  with n r show ?thesis by simp
qed

text \<open>
  Claim C3. A submission that arrives while \<^verbatim>\<open>messageInProgress\<close> is set only appends its
  entry to the queue: no drain loop is started, the module is not called, the trace is
  unchanged. And in every run of submissions and resumptions that starts with nothing
  pending, there is at most one drain loop, hence at most one request taken off the queue
  and not yet settled, and there is one exactly when the flag is set. (The calls that
  \<^verbatim>\<open>sendMessageToWasm\<close> makes for one request are never interleaved with anything: the
  function has no \<^verbatim>\<open>await\<close>.)
\<close>

theorem single_drain_loop:
  "(messageInProgress (globals s) \<longrightarrow>
      sendMessageQueued parse M msg s =
        Some (s\<lparr>promises := Suc (promises s),
                globals := (globals s)\<lparr>messageQueue :=
                  messageQueue (globals s) @ [\<lparr>message = msg, promise = promises s\<rparr>]\<rparr>\<rparr>)) \<and>
   (Reset \<notin> set evs \<and> run parse M evs (start g) = Some s' \<longrightarrow>
      length (awaiting s') \<le> 1 \<and> messageInProgress (globals s') = (awaiting s' \<noteq> []))"
proof (intro conjI impI)
  assume "messageInProgress (globals s)"
  then show "sendMessageQueued parse M msg s =
        Some (s\<lparr>promises := Suc (promises s),
                globals := (globals s)\<lparr>messageQueue :=
                  messageQueue (globals s) @ [\<lparr>message = msg, promise = promises s\<rparr>]\<rparr>\<rparr>)"
    by (simp add: sendMessageQueued_def processMessageQueue_def)
next
  assume a: "Reset \<notin> set evs \<and> run parse M evs (start g) = Some s'"
  with fifo_inv_start have "fifo_inv s'" using run_fifo by blast
  then have m: "map fst (awaiting s') =
      (if messageInProgress (globals s') then [length (delivered s')] else [])"
    by (simp add: fifo_inv_def Let_def)
  then have "length (map fst (awaiting s')) \<le> 1" by simp
  then show "length (awaiting s') \<le> 1" by simp
  from m show "messageInProgress (globals s') = (awaiting s' \<noteq> [])"
    by (cases "messageInProgress (globals s')") auto
qed

definition first_in_flight :: "int jsval system" where
  "first_in_flight =
     \<lparr>globals = ready\<lparr>messageInProgress := True\<rparr>,
      awaiting = [(0, Inr (JObject []))], promises = 1,
      history = [Dequeued 0, AllocateMessageBuffer 15,
        CopyToMemory 8 (request_bytes init_request), AllocateResponseBuffer 262144,
        ProcessMessage 8 15 32 262144, FreeMessageBuffer, FreeResponseBuffer],
      delivered = []\<rparr>"

theorem single_drain_loop_witness:
  "run JSON_parse_sample (sample_module 8 32 (Returns 0) [2, 0, 0, 0, 0x7B, 0x7D])
     [Submit init_request] (start ready) = Some first_in_flight \<and>
   messageInProgress (globals first_in_flight) \<and>
   length (awaiting first_in_flight) = 1 \<and>
   sendMessageQueued JSON_parse_sample
     (sample_module 8 32 (Returns 0) [2, 0, 0, 0, 0x7B, 0x7D]) init_request first_in_flight =
     Some (first_in_flight\<lparr>promises := 2,
       globals := (globals first_in_flight)\<lparr>messageQueue :=
         [\<lparr>message = init_request, promise = 1\<rparr>]\<rparr>\<rparr>)"
proof -
  have r: "run JSON_parse_sample (sample_module 8 32 (Returns 0) [2, 0, 0, 0, 0x7B, 0x7D])
     [Submit init_request] (start ready) = Some first_in_flight"
    by (simp add: first_in_flight_def bridge_eval)
  have p: "messageInProgress (globals first_in_flight)"
    by (simp add: first_in_flight_def)
  from single_drain_loop [of first_in_flight JSON_parse_sample
      "sample_module 8 32 (Returns 0) [2, 0, 0, 0, 0x7B, 0x7D]" init_request
      "[Submit init_request]" ready first_in_flight] r p
  have "sendMessageQueued JSON_parse_sample
     (sample_module 8 32 (Returns 0) [2, 0, 0, 0, 0x7B, 0x7D]) init_request first_in_flight =
     Some (first_in_flight\<lparr>promises := Suc (promises first_in_flight),
       globals := (globals first_in_flight)\<lparr>messageQueue :=
         messageQueue (globals first_in_flight) @
           [\<lparr>message = init_request, promise = promises first_in_flight\<rparr>]\<rparr>\<rparr>)"
    and "length (awaiting first_in_flight) \<le> 1"
    by simp_all
  with r p show ?thesis by (simp add: first_in_flight_def ready_def)
qed

section \<open>\<^verbatim>\<open>resetWasm\<close>\<close>

text \<open>
  Here the runs may contain \<^verbatim>\<open>resetWasm\<close>. The promises in the queue, those awaited by
  a drain loop and those settled are kept apart by \<open>ids_inv\<close>; \<open>forgotten p\<close> says that
  the promise \<open>p\<close> exists and is in none of the three places.
\<close>

definition queued :: "'r system \<Rightarrow> nat list" where
  "queued s = map promise (messageQueue (globals s))"

definition inflight :: "'r system \<Rightarrow> nat list" where
  "inflight s = map fst (awaiting s)"

definition settled :: "'r system \<Rightarrow> nat list" where
  "settled s = map fst (delivered s)"

definition ids_inv :: "'r system \<Rightarrow> bool" where
  "ids_inv s =
     (distinct (queued s @ inflight s) \<and>
      (\<forall>p\<in>set (queued s @ inflight s @ settled s). p < promises s) \<and>
      set (queued s) \<inter> set (settled s) = {})"

definition forgotten :: "nat \<Rightarrow> 'r system \<Rightarrow> bool" where
  "forgotten p s = (p < promises s \<and> p \<notin> set (queued s @ inflight s @ settled s))"

definition drain_ids :: "'r system \<Rightarrow> 'r system \<Rightarrow> bool" where
  "drain_ids s s' =
     (promises s' = promises s \<and> settled s' = settled s \<and>
      (queued s = [] \<and> queued s' = [] \<and> inflight s' = inflight s \<or>
       (\<exists>p. queued s = p # queued s' \<and> inflight s' = inflight s @ [p])))"

lemma drain_loop_ids:
  assumes "drain_loop parse M s = Some s'"
  shows "drain_ids s s'"
proof (cases "messageQueue (globals s)")
  case Nil
  with assms show ?thesis
    by (auto simp: drain_loop_def drain_ids_def queued_def inflight_def settled_def)
next
  case (Cons q rest)
  with assms obtain r g h where
    send: "sendMessageToWasm parse M ((globals s)\<lparr>messageQueue := rest\<rparr>)
             (history s @ [Dequeued (promise q)]) (message q) = Some (r, g, h)"
    and s': "s' = s\<lparr>globals := g, history := h, awaiting := awaiting s @ [(promise q, r)]\<rparr>"
    by (auto simp: drain_loop_def split: option.splits)
  from sendMessageToWasm_markers [OF send] have "messageQueue g = rest" by auto
  with Cons s' show ?thesis
    by (simp add: drain_ids_def queued_def inflight_def settled_def)
qed

lemma drain_ids_inv:
  assumes "ids_inv s" and "drain_ids s s'"
  shows "ids_inv s'"
proof -
  from assms(2) have same: "promises s' = promises s" "settled s' = settled s"
    by (simp_all add: drain_ids_def)
  from assms(2) consider "queued s' = queued s" "inflight s' = inflight s"
    | p where "queued s = p # queued s'" "inflight s' = inflight s @ [p]"
    by (auto simp: drain_ids_def)
  then show ?thesis
  proof cases
    case 1
    with assms(1) same show ?thesis by (simp add: ids_inv_def)
  next
    case 2
    with assms(1) same show ?thesis by (auto simp: ids_inv_def)
  qed
qed

lemma drain_ids_forgotten:
  assumes "forgotten p s" and "drain_ids s s'"
  shows "forgotten p s'"
proof -
  from assms(2) have same: "promises s' = promises s" "settled s' = settled s"
    by (simp_all add: drain_ids_def)
  from assms(2) consider "queued s' = queued s" "inflight s' = inflight s"
    | q where "queued s = q # queued s'" "inflight s' = inflight s @ [q]"
    by (auto simp: drain_ids_def)
  then show ?thesis
  proof cases
    case 1
    with assms(1) same show ?thesis by (simp add: forgotten_def)
  next
    case 2
    with assms(1) same show ?thesis by (auto simp: forgotten_def)
  qed
qed

definition step_ids :: "'r system \<Rightarrow> 'r system \<Rightarrow> bool" where
  "step_ids s s' =
     (promises s' = promises s \<and> settled s' = settled s \<and> queued s' = queued s \<and>
        inflight s' = inflight s \<or>
      promises s' = Suc (promises s) \<and> settled s' = settled s \<and>
        queued s' = queued s @ [promises s] \<and> inflight s' = inflight s \<or>
      (\<exists>xs p ys. inflight s = xs @ p # ys \<and> promises s' = promises s \<and>
        settled s' = settled s @ [p] \<and> queued s' = queued s \<and> inflight s' = xs @ ys) \<or>
      promises s' = promises s \<and> settled s' = settled s \<and> queued s' = [] \<and>
        inflight s' = inflight s)"

lemma step_ids_inv:
  assumes "ids_inv s" and "step_ids s s'"
  shows "ids_inv s'"
proof -
  from assms(1) have i: "distinct (queued s @ inflight s)"
    "\<forall>p\<in>set (queued s). p < promises s" "\<forall>p\<in>set (inflight s). p < promises s"
    "\<forall>p\<in>set (settled s). p < promises s" "set (queued s) \<inter> set (settled s) = {}"
    by (auto simp: ids_inv_def)
  from assms(2) show ?thesis
    unfolding step_ids_def
  proof (elim disjE conjE exE)
    assume "promises s' = promises s" "settled s' = settled s" "queued s' = queued s"
      "inflight s' = inflight s"
    with assms(1) show ?thesis by (simp add: ids_inv_def)
  next
    assume a: "promises s' = Suc (promises s)" "settled s' = settled s"
      "queued s' = queued s @ [promises s]" "inflight s' = inflight s"
    from i have "promises s \<notin> set (queued s)" "promises s \<notin> set (inflight s)"
      "promises s \<notin> set (settled s)"
      by auto
    with i a show ?thesis by (auto simp: ids_inv_def less_Suc_eq)
  next
    fix xs q ys
    assume a: "inflight s = xs @ q # ys" "promises s' = promises s"
      "settled s' = settled s @ [q]" "queued s' = queued s" "inflight s' = xs @ ys"
    from i a have "q \<notin> set (queued s)" by auto
    with i a show ?thesis by (auto simp: ids_inv_def)
  next
    assume a: "promises s' = promises s" "settled s' = settled s" "queued s' = []"
      "inflight s' = inflight s"
    with i show ?thesis by (auto simp: ids_inv_def)
  qed
qed

lemma step_ids_forgotten:
  assumes "forgotten p s" and "step_ids s s'"
  shows "forgotten p s'"
proof -
  from assms(1) have p: "p < promises s" "p \<notin> set (queued s)" "p \<notin> set (inflight s)"
    "p \<notin> set (settled s)"
    by (simp_all add: forgotten_def)
  from assms(2) show ?thesis
    unfolding step_ids_def
  proof (elim disjE conjE exE)
    assume "promises s' = promises s" "settled s' = settled s" "queued s' = queued s"
      "inflight s' = inflight s"
    with p show ?thesis by (simp add: forgotten_def)
  next
    assume "promises s' = Suc (promises s)" "settled s' = settled s"
      "queued s' = queued s @ [promises s]" "inflight s' = inflight s"
    with p show ?thesis by (simp add: forgotten_def)
  next
    fix xs q ys
    assume "inflight s = xs @ q # ys" "promises s' = promises s"
      "settled s' = settled s @ [q]" "queued s' = queued s" "inflight s' = xs @ ys"
    with p show ?thesis by (simp add: forgotten_def)
  next
    assume "promises s' = promises s" "settled s' = settled s" "queued s' = []"
      "inflight s' = inflight s"
    with p show ?thesis by (simp add: forgotten_def)
  qed
qed

lemma step_effect:
  assumes "step parse M ev s = Some s'"
  shows "\<exists>s1. step_ids s s1 \<and> (s1 = s' \<or> drain_ids s1 s')"
proof (cases ev)
  case (Submit msg)
  let ?s1 = "s\<lparr>promises := Suc (promises s),
          globals := (globals s)\<lparr>messageQueue :=
            messageQueue (globals s) @ [\<lparr>message = msg, promise = promises s\<rparr>]\<rparr>\<rparr>"
  let ?s2 = "?s1\<lparr>globals := (globals ?s1)\<lparr>messageInProgress := True\<rparr>\<rparr>"
  show ?thesis
  proof (cases "messageInProgress (globals s)")
    case True
    with assms Submit have "s' = ?s1"
      by (simp add: sendMessageQueued_def processMessageQueue_def)
    moreover have "step_ids s ?s1"
      by (simp add: step_ids_def queued_def inflight_def settled_def)
    ultimately show ?thesis by blast
  next
    case False
    with assms Submit have "drain_loop parse M ?s2 = Some s'"
      by (simp add: sendMessageQueued_def processMessageQueue_def)
    then have "drain_ids ?s2 s'" by (rule drain_loop_ids)
    moreover have "step_ids s ?s2"
      by (simp add: step_ids_def queued_def inflight_def settled_def)
    ultimately show ?thesis by blast
  qed
next
  case (Resume k)
  show ?thesis
  proof (cases "k < length (awaiting s)")
    case False
    with assms Resume have "s' = s" by (simp add: resume_def)
    moreover have "step_ids s s" by (simp add: step_ids_def)
    ultimately show ?thesis by blast
  next
    case True
    let ?s1 = "s\<lparr>awaiting := take k (awaiting s) @ drop (Suc k) (awaiting s),
             history := history s @ [Settled (fst (awaiting s ! k))],
             delivered := delivered s @ [awaiting s ! k]\<rparr>"
    from assms Resume True have "drain_loop parse M ?s1 = Some s'"
      by (simp add: resume_def)
    then have "drain_ids ?s1 s'" by (rule drain_loop_ids)
    moreover have "step_ids s ?s1"
    proof -
      from True have "awaiting s = take k (awaiting s) @ awaiting s ! k # drop (Suc k) (awaiting s)"
        by (rule id_take_nth_drop)
      then have "map fst (awaiting s) =
          map fst (take k (awaiting s)) @ fst (awaiting s ! k) # map fst (drop (Suc k) (awaiting s))"
        by (metis list.simps(9) map_append)
      then have "\<exists>xs p ys. inflight s = xs @ p # ys \<and> promises ?s1 = promises s \<and>
          settled ?s1 = settled s @ [p] \<and> queued ?s1 = queued s \<and> inflight ?s1 = xs @ ys"
        by (intro exI [of _ "map fst (take k (awaiting s))"] exI [of _ "fst (awaiting s ! k)"]
            exI [of _ "map fst (drop (Suc k) (awaiting s))"])
          (simp add: queued_def inflight_def settled_def)
      then show ?thesis unfolding step_ids_def by blast
    qed
    ultimately show ?thesis by blast
  qed
next
  case Reset
  with assms have "s' = s\<lparr>globals := resetWasm (globals s)\<rparr>" by simp
  moreover have "step_ids s (s\<lparr>globals := resetWasm (globals s)\<rparr>)"
    by (simp add: step_ids_def queued_def inflight_def settled_def resetWasm_def)
  ultimately show ?thesis by blast
qed

lemma step_preserves_ids:
  assumes "ids_inv s" and "step parse M ev s = Some s'"
  shows "ids_inv s'"
proof -
  from step_effect [OF assms(2)] obtain s1 where 1: "step_ids s s1"
    and 2: "s1 = s' \<or> drain_ids s1 s'"
    by blast
  from assms(1) 1 have "ids_inv s1" by (rule step_ids_inv)
  with 2 show ?thesis using drain_ids_inv by blast
qed

lemma step_forgotten:
  assumes "forgotten p s" and "step parse M ev s = Some s'"
  shows "forgotten p s'"
proof -
  from step_effect [OF assms(2)] obtain s1 where 1: "step_ids s s1"
    and 2: "s1 = s' \<or> drain_ids s1 s'"
    by blast
  from assms(1) 1 have "forgotten p s1" by (rule step_ids_forgotten)
  with 2 show ?thesis using drain_ids_forgotten by blast
qed

lemma run_ids: "ids_inv s \<Longrightarrow> run parse M evs s = Some s' \<Longrightarrow> ids_inv s'"
proof (induction evs arbitrary: s)
  case Nil
  then show ?case by simp
next
  case (Cons ev evs)
  from Cons.prems(2) obtain s1 where 1: "step parse M ev s = Some s1"
    and 2: "run parse M evs s1 = Some s'"
    by (auto split: option.splits)
  from Cons.prems(1) 1 have "ids_inv s1" by (rule step_preserves_ids)
  then show ?case using 2 by (rule Cons.IH)
qed

lemma run_forgotten: "forgotten p s \<Longrightarrow> run parse M evs s = Some s' \<Longrightarrow> forgotten p s'"
proof (induction evs arbitrary: s)
  case Nil
  then show ?case by simp
next
  case (Cons ev evs)
  from Cons.prems(2) obtain s1 where 1: "step parse M ev s = Some s1"
    and 2: "run parse M evs s1 = Some s'"
    by (auto split: option.splits)
  from Cons.prems(1) 1 have "forgotten p s1" by (rule step_forgotten)
  then show ?case using 2 by (rule Cons.IH)
qed

lemma ids_inv_start: "ids_inv (start g)"
  by (simp add: ids_inv_def start_def queued_def inflight_def settled_def)

lemma reset_forgets:
  assumes "ids_inv s" and "p \<in> set (queued s)"
  shows "forgotten p (s\<lparr>globals := resetWasm (globals s)\<rparr>)"
proof -
  from assms have "p < promises s" "p \<notin> set (inflight s)" "p \<notin> set (settled s)"
    by (auto simp: ids_inv_def)
  then show ?thesis
    by (simp add: forgotten_def resetWasm_def queued_def inflight_def settled_def)
qed

text \<open>
  Claim C9. \<^verbatim>\<open>resetWasm\<close> sets every global of the bridge to its initial value, in every
  state \<open>g\<close> of the globals (a dead bridge with an empty queue as well as a busy one): no
  module, no memory, an empty queue, both flags false. An entry that was in the queue at
  that moment is gone for good: in whatever way the system goes on, its promise is never
  settled, never waited for by a drain loop, and never in the queue again.
\<close>

theorem resetWasm_discards_queue:
  "resetWasm g =
      \<lparr>wasmModule = False, wasmMemory = False, messageQueue = [],
       messageInProgress = False, wasmIsDead = False\<rparr> \<and>
   (run parse M evs (start g0) = Some s \<and> q \<in> set (messageQueue (globals s)) \<and>
    run parse M evs' (s\<lparr>globals := resetWasm (globals s)\<rparr>) = Some s' \<longrightarrow>
      promise q \<notin> fst ` set (delivered s) \<and>
      promise q \<notin> fst ` set (delivered s') \<and>
      promise q \<notin> fst ` set (awaiting s') \<and>
      promise q \<notin> promise ` set (messageQueue (globals s')))"
proof (rule conjI, goal_cases)
  case 1
  show ?case
    by (simp add: resetWasm_def)
next
  case 2
  show ?case
  proof (rule impI)
    assume a: "run parse M evs (start g0) = Some s \<and> q \<in> set (messageQueue (globals s)) \<and>
      run parse M evs' (s\<lparr>globals := resetWasm (globals s)\<rparr>) = Some s'"
    then have a1: "run parse M evs (start g0) = Some s"
      and a2: "q \<in> set (messageQueue (globals s))"
      and a3: "run parse M evs' (s\<lparr>globals := resetWasm (globals s)\<rparr>) = Some s'"
      by simp_all
    from ids_inv_start a1 have i: "ids_inv s" by (rule run_ids)
    from a2 have q: "promise q \<in> set (queued s)" by (simp add: queued_def)
    with i have "forgotten (promise q) (s\<lparr>globals := resetWasm (globals s)\<rparr>)"
      by (rule reset_forgets)
    then have "forgotten (promise q) s'" using a3 by (rule run_forgotten)
    then have "promise q \<notin> fst ` set (delivered s')" "promise q \<notin> fst ` set (awaiting s')"
      "promise q \<notin> promise ` set (messageQueue (globals s'))"
      by (simp_all add: forgotten_def settled_def inflight_def queued_def)
    moreover from i q have "promise q \<notin> fst ` set (delivered s)"
      by (auto simp: ids_inv_def settled_def)
    ultimately show "promise q \<notin> fst ` set (delivered s) \<and>
        promise q \<notin> fst ` set (delivered s') \<and>
        promise q \<notin> fst ` set (awaiting s') \<and>
        promise q \<notin> promise ` set (messageQueue (globals s'))"
      by simp
  qed
qed

text \<open>
  Two uses. A bridge that has crashed and has nothing queued comes back with the dead flag
  cleared and without a module. And the second of two requests is in the queue when
  \<^verbatim>\<open>resetWasm\<close> is called: the drain loop then settles the first and ends; a third request
  is rejected, the module being gone; the second is never settled.
\<close>

definition crashed_and_idle :: bridge where
  "crashed_and_idle =
     \<lparr>wasmModule = True, wasmMemory = True, messageQueue = [],
      messageInProgress = False, wasmIsDead = True\<rparr>"

definition second_queued :: "int jsval system" where
  "second_queued =
     first_in_flight\<lparr>promises := 2,
       globals := (globals first_in_flight)\<lparr>messageQueue :=
         [\<lparr>message = init_request, promise = 1\<rparr>]\<rparr>\<rparr>"

definition after_reset :: "int jsval system" where
  "after_reset =
     \<lparr>globals = resetWasm (globals second_queued)\<lparr>messageInProgress := True\<rparr>,
      awaiting = [(2, Inl (Error ''WASM module or memory not available''))], promises = 3,
      history = history second_queued @ [Settled 0, Dequeued 2],
      delivered = [(0, Inr (JObject []))]\<rparr>"

theorem resetWasm_discards_queue_witness:
  "resetWasm crashed_and_idle =
     \<lparr>wasmModule = False, wasmMemory = False, messageQueue = [],
      messageInProgress = False, wasmIsDead = False\<rparr> \<and>
   run JSON_parse_sample (sample_module 8 32 (Returns 0) [2, 0, 0, 0, 0x7B, 0x7D])
     [Submit init_request, Submit init_request] (start ready) = Some second_queued \<and>
   messageQueue (globals second_queued) = [\<lparr>message = init_request, promise = 1\<rparr>] \<and>
   run JSON_parse_sample (sample_module 8 32 (Returns 0) [2, 0, 0, 0, 0x7B, 0x7D])
     [Resume 0, Submit init_request]
     (second_queued\<lparr>globals := resetWasm (globals second_queued)\<rparr>) = Some after_reset \<and>
   1 \<notin> fst ` set (delivered after_reset) \<and>
   1 \<notin> fst ` set (awaiting after_reset)"
proof -
  have r1: "run JSON_parse_sample (sample_module 8 32 (Returns 0) [2, 0, 0, 0, 0x7B, 0x7D])
     [Submit init_request, Submit init_request] (start ready) = Some second_queued"
    by (simp add: second_queued_def first_in_flight_def bridge_eval)
  have q: "\<lparr>message = init_request, promise = 1\<rparr> \<in> set (messageQueue (globals second_queued))"
    by (simp add: second_queued_def)
  have r2: "run JSON_parse_sample (sample_module 8 32 (Returns 0) [2, 0, 0, 0, 0x7B, 0x7D])
     [Resume 0, Submit init_request]
     (second_queued\<lparr>globals := resetWasm (globals second_queued)\<rparr>) = Some after_reset"
    by (simp add: after_reset_def second_queued_def first_in_flight_def bridge_eval)
  have t: "resetWasm crashed_and_idle =
      \<lparr>wasmModule = False, wasmMemory = False, messageQueue = [],
       messageInProgress = False, wasmIsDead = False\<rparr> \<and>
    (run JSON_parse_sample (sample_module 8 32 (Returns 0) [2, 0, 0, 0, 0x7B, 0x7D])
       [Submit init_request, Submit init_request] (start ready) = Some second_queued \<and>
     \<lparr>message = init_request, promise = 1\<rparr> \<in> set (messageQueue (globals second_queued)) \<and>
     run JSON_parse_sample (sample_module 8 32 (Returns 0) [2, 0, 0, 0, 0x7B, 0x7D])
       [Resume 0, Submit init_request]
       (second_queued\<lparr>globals := resetWasm (globals second_queued)\<rparr>) = Some after_reset \<longrightarrow>
     promise \<lparr>message = init_request, promise = 1\<rparr> \<notin> fst ` set (delivered second_queued) \<and>
     promise \<lparr>message = init_request, promise = 1\<rparr> \<notin> fst ` set (delivered after_reset) \<and>
     promise \<lparr>message = init_request, promise = 1\<rparr> \<notin> fst ` set (awaiting after_reset) \<and>
     promise \<lparr>message = init_request, promise = 1\<rparr> \<notin>
       promise ` set (messageQueue (globals after_reset)))"
    by (rule resetWasm_discards_queue)
  from t have e: "resetWasm crashed_and_idle =
      \<lparr>wasmModule = False, wasmMemory = False, messageQueue = [],
       messageInProgress = False, wasmIsDead = False\<rparr>"
    by (rule conjunct1)
  from t r1 q r2
  have "promise \<lparr>message = init_request, promise = 1\<rparr> \<notin> fst ` set (delivered after_reset)"
    "promise \<lparr>message = init_request, promise = 1\<rparr> \<notin> fst ` set (awaiting after_reset)"
    by blast+
  then have "1 \<notin> fst ` set (delivered after_reset)" "1 \<notin> fst ` set (awaiting after_reset)"
    by simp_all
  moreover have "messageQueue (globals second_queued) =
      [\<lparr>message = init_request, promise = 1\<rparr>]"
    by (simp add: second_queued_def)
  ultimately show ?thesis using e r1 r2 by simp
qed

text \<open>
  \<^verbatim>\<open>resetWasm\<close> clears \<^verbatim>\<open>messageInProgress\<close> while a drain loop may still be suspended
  at its \<^verbatim>\<open>await\<close>; the next submission then starts a second loop. The module reference
  is gone, so the request of that loop is rejected without a call of the module.
\<close>

lemma second_drain_loop_after_reset:
  "run JSON_parse_sample (sample_module 8 32 (Returns 0) [2, 0, 0, 0, 0x7B, 0x7D])
     [Submit init_request, Reset, Submit init_request] (start ready) =
     Some \<lparr>globals = (resetWasm ready)\<lparr>messageInProgress := True\<rparr>,
       awaiting = [(0, Inr (JObject [])),
                   (1, Inl (Error ''WASM module or memory not available''))],
       promises = 2,
       history = [Dequeued 0, AllocateMessageBuffer 15,
         CopyToMemory 8 (request_bytes init_request), AllocateResponseBuffer 262144,
         ProcessMessage 8 15 32 262144, FreeMessageBuffer, FreeResponseBuffer, Dequeued 1],
       delivered = []\<rparr>"
  by (simp add: bridge_eval)

end
